theory Spec2Isabelle
  imports Complex_Main
begin

section \<open>Python values used by both classes\<close>

text \<open>
  \<^verbatim>\<open>str(n)\<close> of a Python integer: the decimal digits, with a minus sign for a negative
  number. It is what the f-strings \<^verbatim>\<open>f"stream{i}"\<close> and \<^verbatim>\<open>str(self.fps)\<close> produce.
\<close>

definition digit_char :: "nat \<Rightarrow> char" where
  "digit_char d = ''0123456789'' ! d"

fun str_nat :: "nat \<Rightarrow> string" where
  "str_nat n = (if n < 10 then [digit_char n] else str_nat (n div 10) @ [digit_char (n mod 10)])"

declare str_nat.simps [simp del]

definition str_int :: "int \<Rightarrow> string" where
  "str_int i = (if i < 0 then ''-'' @ str_nat (nat (- i)) else str_nat (nat i))"

datatype error =
    FileNotFoundError string
  | ValueError string
  | KeyError string
  | OSError string

section \<open>stream\_publisher.py: RTSPStreamPublisher\<close>

text \<open>
  The publisher object, the operating-system processes it has launched and the supervision
  threads it has started are one state. \<open>procs\<close> lists every process the publisher has
  launched, newest first; the field \<^verbatim>\<open>self.process\<close> is its head, because the only
  assignment to the field is the result of \<^verbatim>\<open>subprocess.Popen\<close> (line 139). \<open>threads\<close>
  lists the program counter of every supervision thread, newest first; \<^verbatim>\<open>self.thread\<close>
  is its head, assigned in \<^verbatim>\<open>start\<close> only (line 125). \<open>trace\<close> records what the
  supervision threads did, in order.
\<close>

record proc =
  alive :: bool
  stderr :: string

text \<open>
  Where a supervision thread stands in \<^verbatim>\<open>_publish_loop\<close>: about to evaluate the
  \<^verbatim>\<open>while self.running\<close> of line 132, about to build the command and call Popen
  (lines 134 to 144), at the inner \<^verbatim>\<open>while\<close> of line 147, at the \<^verbatim>\<open>if self.running\<close>
  of line 151, inside a \<^verbatim>\<open>time.sleep(2)\<close> (line 160 or 165), or returned.
\<close>

datatype pc = Head | Launch | Poll | Check | Cooldown | Exited

datatype effect =
    Popen "string list"
  | Sleep real
  | Log_unexpected_end string
  | Log_loop_error

record publisher =
  stream_name :: string
  video_path :: string
  rtsp_url :: string
  loop :: bool
  fps :: int
  codec :: string
  preset :: string
  bitrate :: string
  pixel_format :: string
  running :: bool
  error_count :: int
  frame_count :: int
  start_time :: "real option"
  video_width :: int
  video_height :: int
  video_fps :: real
  total_frames :: int
  duration :: real
  procs :: "proc list"
  threads :: "pc list"
  trace :: "effect list"

definition process :: "publisher \<Rightarrow> proc option" where
  "process p = (case procs p of [] \<Rightarrow> None | x # _ \<Rightarrow> Some x)"

definition thread :: "publisher \<Rightarrow> pc option" where
  "thread p = (case threads p of [] \<Rightarrow> None | c # _ \<Rightarrow> Some c)"

definition is_alive :: "pc \<Rightarrow> bool" where
  "is_alive c = (c \<noteq> Exited)"

subsection \<open>Construction\<close>

text \<open>
  What the file system and OpenCV answer for a path: no such file, a file that
  \<^verbatim>\<open>cv2.VideoCapture\<close> cannot open, or a video with its properties.
\<close>

record video_props =
  width :: int
  height :: int
  native_fps :: real
  frames :: int

datatype file_status = Missing | Unreadable | Video video_props

record publisher_args =
  arg_stream_name :: string
  arg_video_path :: string
  arg_rtsp_url :: string
  arg_loop :: bool
  arg_fps :: int
  arg_codec :: string
  arg_preset :: string
  arg_bitrate :: string
  arg_pixel_format :: string

definition init_publisher :: "(string \<Rightarrow> file_status) \<Rightarrow> publisher_args \<Rightarrow> error + publisher" where
  "init_publisher fs a =
     (case fs (arg_video_path a) of
        Missing \<Rightarrow> Inl (FileNotFoundError (''Video file not found: '' @ arg_video_path a))
      | Unreadable \<Rightarrow> Inl (ValueError (''Cannot open video file: '' @ arg_video_path a))
      | Video v \<Rightarrow> Inr
          \<lparr>stream_name = arg_stream_name a, video_path = arg_video_path a,
           rtsp_url = arg_rtsp_url a, loop = arg_loop a, fps = arg_fps a,
           codec = arg_codec a, preset = arg_preset a, bitrate = arg_bitrate a,
           pixel_format = arg_pixel_format a,
           running = False, error_count = 0, frame_count = 0, start_time = None,
           video_width = width v, video_height = height v, video_fps = native_fps v,
           total_frames = frames v,
           duration = (if native_fps v > 0 then real_of_int (frames v) / native_fps v else 0),
           procs = [], threads = [], trace = []\<rparr>)"

definition build_ffmpeg_command :: "publisher \<Rightarrow> string list" where
  "build_ffmpeg_command p =
     [''ffmpeg''] @
     [''-hide_banner'', ''-loglevel'', ''error'', ''-re'',
      ''-stream_loop'', (if loop p then ''-1'' else ''0''),
      ''-i'', video_path p] @
     [''-c:v'', codec p, ''-preset'', preset p, ''-b:v'', bitrate p,
      ''-pix_fmt'', pixel_format p, ''-r'', str_int (fps p), ''-f'', ''rtsp'',
      ''-g'', str_int (fps p * 2), ''-keyint_min'', str_int (fps p),
      ''-sc_threshold'', ''0'', ''-rtsp_transport'', ''tcp''] @
     [rtsp_url p]"

subsection \<open>start\<close>

definition start :: "real \<Rightarrow> publisher \<Rightarrow> publisher" where
  "start now p =
     (if running p then p
      else p\<lparr>running := True, start_time := Some now, threads := Head # threads p\<rparr>)"

subsection \<open>One step of a supervision thread\<close>

text \<open>
  \<^verbatim>\<open>subprocess.Popen\<close> either returns a handle to a new live process or raises (the
  encoder binary is missing, say); the \<^verbatim>\<open>except Exception\<close> of line 162 then counts
  an error and sleeps.
\<close>

datatype popen_result = Spawned | Raised

definition loop_error :: "publisher \<Rightarrow> publisher \<times> pc" where
  "loop_error p =
     (p\<lparr>error_count := error_count p + 1, trace := trace p @ [Log_loop_error]\<rparr>, Cooldown)"

fun loop_step :: "popen_result \<Rightarrow> publisher \<Rightarrow> pc \<Rightarrow> publisher \<times> pc" where
  "loop_step r p Head = (if running p then (p, Launch) else (p, Exited))"
| "loop_step r p Launch =
     (case r of
        Spawned \<Rightarrow>
          (p\<lparr>procs := \<lparr>alive = True, stderr = []\<rparr> # procs p,
             trace := trace p @ [Popen (build_ffmpeg_command p)]\<rparr>, Poll)
      | Raised \<Rightarrow> loop_error p)"
| "loop_step r p Poll =
     (if running p then
        (case process p of
           None \<Rightarrow> loop_error p
         | Some x \<Rightarrow> if alive x then (p\<lparr>trace := trace p @ [Sleep 0.1]\<rparr>, Poll) else (p, Check))
      else (p, Check))"
| "loop_step r p Check =
     (if running p then
        (case process p of
           None \<Rightarrow> loop_error p
         | Some x \<Rightarrow>
             (p\<lparr>error_count := error_count p + 1,
                trace := trace p @ [Log_unexpected_end (take 500 (stderr x))]\<rparr>, Cooldown))
      else (p, Head))"
| "loop_step r p Cooldown = (p\<lparr>trace := trace p @ [Sleep 2]\<rparr>, Head)"
| "loop_step r p Exited = (p, Exited)"

text \<open>Thread \<open>i\<close> of the publisher takes its next step.\<close>

definition publish_loop_step :: "popen_result \<Rightarrow> nat \<Rightarrow> publisher \<Rightarrow> publisher" where
  "publish_loop_step r i p =
     (if i < length (threads p) then
        (case loop_step r p (threads p ! i) of
           (p', c') \<Rightarrow> p'\<lparr>threads := (threads p')[i := c']\<rparr>)
      else p)"

text \<open>Process \<open>i\<close> ends on its own, leaving \<open>err\<close> on its diagnostic output.\<close>

definition proc_exit :: "nat \<Rightarrow> string \<Rightarrow> publisher \<Rightarrow> publisher" where
  "proc_exit i err p =
     (if i < length (procs p) \<and> alive (procs p ! i)
      then p\<lparr>procs := (procs p)[i := \<lparr>alive = False, stderr = err\<rparr>]\<rparr>
      else p)"

subsection \<open>stop\<close>

text \<open>
  The three ways the \<^verbatim>\<open>try\<close> of lines 174 to 181 ends for a live process: it exits
  within the five time units of \<^verbatim>\<open>wait\<close>; \<^verbatim>\<open>wait\<close> raises TimeoutExpired and the
  process is killed; or another exception is logged and nothing more is done. For a
  process that has already ended, \<^verbatim>\<open>terminate\<close> and \<^verbatim>\<open>wait\<close> return at once.
\<close>

datatype term_result = Term_exited | Term_timeout | Term_error

definition terminate_process :: "term_result \<Rightarrow> publisher \<Rightarrow> publisher" where
  "terminate_process tr p =
     (case procs p of
        [] \<Rightarrow> p
      | x # xs \<Rightarrow>
          (if alive x then
             (case tr of
                Term_exited \<Rightarrow> p\<lparr>procs := x\<lparr>alive := False\<rparr> # xs\<rparr>
              | Term_timeout \<Rightarrow> p\<lparr>procs := x\<lparr>alive := False\<rparr> # xs\<rparr>
              | Term_error \<Rightarrow> p)
           else p))"

text \<open>
  \<^verbatim>\<open>self.thread.join(timeout=5)\<close>: the caller waits while the newest thread runs. With
  \<open>running\<close> false the thread needs at most four steps to return, and the longest
  wait on its way is the sleep of two time units, so the join does not time out; \<open>n\<close>
  bounds the steps.
\<close>

fun join_thread :: "nat \<Rightarrow> popen_result \<Rightarrow> publisher \<Rightarrow> publisher" where
  "join_thread 0 r p = p"
| "join_thread (Suc n) r p =
     (case thread p of
        None \<Rightarrow> p
      | Some c \<Rightarrow> if is_alive c then join_thread n r (publish_loop_step r 0 p) else p)"

definition stop :: "term_result \<Rightarrow> popen_result \<Rightarrow> publisher \<Rightarrow> publisher" where
  "stop tr r p = join_thread 4 r (terminate_process tr (p\<lparr>running := False\<rparr>))"

subsection \<open>get\_stats and is\_healthy\<close>

record stats =
  stats_stream_name :: string
  stats_rtsp_url :: string
  stats_running :: bool
  uptime_seconds :: real
  stats_error_count :: int
  stats_video_path :: string
  resolution :: string
  stats_fps :: int
  stats_is_alive :: bool

definition get_stats :: "real \<Rightarrow> publisher \<Rightarrow> stats" where
  "get_stats now p =
     \<lparr>stats_stream_name = stream_name p,
      stats_rtsp_url = rtsp_url p,
      stats_running = running p,
      uptime_seconds = (case start_time p of None \<Rightarrow> 0 | Some t \<Rightarrow> if t = 0 then 0 else now - t),
      stats_error_count = error_count p,
      stats_video_path = video_path p,
      resolution = str_int (video_width p) @ ''x'' @ str_int (video_height p),
      stats_fps = fps p,
      stats_is_alive = (case thread p of None \<Rightarrow> False | Some c \<Rightarrow> is_alive c)\<rparr>"

definition is_healthy :: "publisher \<Rightarrow> bool" where
  "is_healthy p =
     (running p \<and> thread p \<noteq> None \<and> (case thread p of None \<Rightarrow> False | Some c \<Rightarrow> is_alive c)
      \<and> error_count p < 10)"

subsection \<open>Operation sequences on one publisher\<close>

datatype event =
    Start real
  | Stop term_result popen_result
  | Get_stats real
  | Is_healthy
  | Thread_step nat popen_result
  | Proc_exit nat string

fun step :: "publisher \<Rightarrow> event \<Rightarrow> publisher" where
  "step p (Start now) = start now p"
| "step p (Stop tr r) = stop tr r p"
| "step p (Get_stats now) = p"
| "step p Is_healthy = p"
| "step p (Thread_step i r) = publish_loop_step r i p"
| "step p (Proc_exit i err) = proc_exit i err p"

fun run :: "publisher \<Rightarrow> event list \<Rightarrow> publisher" where
  "run p [] = p"
| "run p (e # es) = run (step p e) es"

definition live_processes :: "publisher \<Rightarrow> nat" where
  "live_processes p = length (filter alive (procs p))"

definition live_threads :: "publisher \<Rightarrow> nat" where
  "live_threads p = length (filter is_alive (threads p))"

text \<open>
  A run is calm when every \<open>stop\<close> in it has a termination request that does not fail
  and is called while the newest supervision thread is not between its check of
  \<open>running\<close> and its launch.
\<close>

fun calm :: "publisher \<Rightarrow> event list \<Rightarrow> bool" where
  "calm p [] = True"
| "calm p (e # es) =
     ((case e of
         Stop tr r \<Rightarrow> tr \<noteq> Term_error \<and> thread p \<noteq> Some Launch
       | _ \<Rightarrow> True)
      \<and> calm (step p e) es)"

text \<open>
  The state of a publisher that does one thing at a time: only the newest thread and the
  newest process can be alive, a publisher that is not running has no live thread, and a
  live process is being polled by the thread of a running publisher.
\<close>

definition one_at_a_time :: "publisher \<Rightarrow> bool" where
  "one_at_a_time p =
     ((\<forall>c \<in> set (tl (threads p)). c = Exited)
      \<and> (\<forall>x \<in> set (tl (procs p)). \<not> alive x)
      \<and> (\<not> running p \<longrightarrow> (\<forall>c. thread p = Some c \<longrightarrow> c = Exited))
      \<and> (\<forall>x. process p = Some x \<and> alive x \<longrightarrow> running p \<and> thread p = Some Poll))"

text \<open>A publisher as the constructor leaves it, for concrete runs.\<close>

definition demo_publisher :: publisher where
  "demo_publisher =
     \<lparr>stream_name = ''stream1'', video_path = ''videos/test.mp4'',
      rtsp_url = ''rtsp://localhost:8554/stream1'', loop = True, fps = 30,
      codec = ''libx264'', preset = ''ultrafast'', bitrate = ''2M'',
      pixel_format = ''yuv420p'',
      running = False, error_count = 0, frame_count = 0, start_time = None,
      video_width = 640, video_height = 480, video_fps = 30,
      total_frames = 300, duration = 10,
      procs = [], threads = [], trace = []\<rparr>"

section \<open>orchestrator.py: LoadTestOrchestrator\<close>

subsection \<open>The configuration dictionary\<close>

text \<open>
  The configuration is a dictionary of dictionaries. Each section is a record of the
  keys the code reads, \<open>None\<close> for a key that is absent, and the section itself is
  \<open>None\<close> when absent. The two sections that the code tests as conditions also list
  the other keys they hold (a server section may give a host and a port and no
  \<^verbatim>\<open>base_url\<close>): a dictionary is false in a Python condition only when it has no
  key at all, and a list only when it is empty.
\<close>

record video_section =
  vid_path :: "string option"
  vid_loop :: "bool option"
  vid_fps :: "int option"
  vid_other_keys :: "string list"

record source_entry =
  src_name :: "string option"
  src_video_path :: "string option"
  src_loop :: "bool option"
  src_fps :: "int option"

record rtsp_server_section =
  srv_base_url :: "string option"
  srv_other_keys :: "string list"

record limits_section =
  lim_max_streams :: "int option"
  lim_max_memory_percent :: "real option"
  lim_max_cpu_percent :: "real option"

record load_test_section =
  lt_concurrent_streams :: "int option"
  lt_report_interval :: "real option"
  lt_duration :: "real option"

record publisher_section =
  pub_codec :: "string option"
  pub_preset :: "string option"
  pub_bitrate :: "string option"
  pub_pixel_format :: "string option"

record monitoring_section =
  mon_log_level :: "string option"
  mon_enabled :: "bool option"
  mon_metrics_file :: "string option"

record config =
  cfg_video_sources :: "source_entry list option"
  cfg_video :: "video_section option"
  cfg_rtsp_server :: "rtsp_server_section option"
  cfg_limits :: "limits_section option"
  cfg_load_test :: "load_test_section option"
  cfg_publisher :: "publisher_section option"
  cfg_monitoring :: "monitoring_section option"

text \<open>\<^verbatim>\<open>d.get(key, default)\<close> on a section that may be absent (\<^verbatim>\<open>config.get(s, {})\<close>).\<close>

definition get_or :: "'s option \<Rightarrow> ('s \<Rightarrow> 'v option) \<Rightarrow> 'v \<Rightarrow> 'v" where
  "get_or sec key dflt = (case sec of None \<Rightarrow> dflt | Some s \<Rightarrow> (case key s of None \<Rightarrow> dflt | Some v \<Rightarrow> v))"

text \<open>
  \<^verbatim>\<open>config.get(s)\<close> as a condition: the section when it is present and true, that is
  a list with an element or a dictionary with a key.
\<close>

definition get_video_sources :: "config \<Rightarrow> source_entry list option" where
  "get_video_sources c =
     (case cfg_video_sources c of
        None \<Rightarrow> None
      | Some xs \<Rightarrow> if xs = [] then None else Some xs)"

definition get_video :: "config \<Rightarrow> video_section option" where
  "get_video c =
     (case cfg_video c of
        None \<Rightarrow> None
      | Some v \<Rightarrow>
          if vid_path v = None \<and> vid_loop v = None \<and> vid_fps v = None \<and> vid_other_keys v = []
          then None else Some v)"

definition get_rtsp_server :: "config \<Rightarrow> rtsp_server_section option" where
  "get_rtsp_server c =
     (case cfg_rtsp_server c of
        None \<Rightarrow> None
      | Some s \<Rightarrow> if srv_base_url s = None \<and> srv_other_keys s = [] then None else Some s)"

subsection \<open>The orchestrator, its clock and its log\<close>

record report =
  test_duration_seconds :: real
  total_streams :: nat
  streams :: "stats list"

datatype log_entry =
    Log_created string
  | Log_created_total nat
  | Log_already_running
  | Log_starting
  | Log_started nat
  | Log_duration_reached real
  | Log_status_report real real nat nat "stats list"
  | Log_memory_exceeded real real
  | Log_cpu_exceeded real real
  | Log_unhealthy nat
  | Log_too_many_errors string
  | Log_stopping_all
  | Log_final_report report
  | Log_report_saved string
  | Log_stopped
  | Log_monitoring_error error

text \<open>
  \<open>clock\<close> is what \<^verbatim>\<open>time.time()\<close> returns and \<open>log\<close> what the logger has
  received; they are carried with the object. Only \<^verbatim>\<open>time.sleep(d)\<close> and the
  blocking sample \<^verbatim>\<open>psutil.cpu_percent(interval=1)\<close> advance the clock: every other
  call takes no time in this model.
\<close>

record orchestrator =
  config :: config
  publishers :: "publisher list"
  running :: bool
  start_time :: real
  clock :: real
  log :: "log_entry list"

subsection \<open>Construction and validation\<close>

definition validate_config :: "config \<Rightarrow> error + unit" where
  "validate_config c =
     (if get_video_sources c = None \<and> get_video c = None then
        Inl (ValueError ''No video source configured (use 'video' section)'')
      else if get_rtsp_server c = None then
        Inl (ValueError ''RTSP server configuration missing'')
      else
        (let max_streams = get_or (cfg_limits c) lim_max_streams 50;
             concurrent_streams = get_or (cfg_load_test c) lt_concurrent_streams 1
         in if concurrent_streams > max_streams then
              Inl (ValueError (''Concurrent streams ('' @ str_int concurrent_streams
                     @ '') exceeds max limit ('' @ str_int max_streams @ '')''))
            else Inr ()))"

text \<open>
  \<^verbatim>\<open>__init__\<close> registers the two signal handlers and sets up logging before it
  validates. What the environment answers: \<^verbatim>\<open>signal.signal\<close> raises when it is not
  called from the main thread, \<^verbatim>\<open>Path("logs").mkdir\<close> and the opening of the log
  file can fail. \<^verbatim>\<open>logger.add\<close> looks the level name up among loguru's levels and
  raises ValueError for a name that is not one of them; the configured level is a
  name here, not a number. The code adds no level of its own.
\<close>

record init_env =
  signal_error :: "error option"
  mkdir_error :: "error option"
  sink_error :: "error option"

definition loguru_levels :: "string list" where
  "loguru_levels =
     [''TRACE'', ''DEBUG'', ''INFO'', ''SUCCESS'', ''WARNING'', ''ERROR'', ''CRITICAL'']"

definition setup_logging :: "init_env \<Rightarrow> config \<Rightarrow> error option" where
  "setup_logging ienv c =
     (let log_level = get_or (cfg_monitoring c) mon_log_level ''INFO'' in
      case mkdir_error ienv of
        Some e \<Rightarrow> Some e
      | None \<Rightarrow>
          if log_level \<notin> set loguru_levels then
            Some (ValueError (''Level '' @ [CHR 0x27] @ log_level @ [CHR 0x27] @ '' does not exist''))
          else sink_error ienv)"

definition init_orchestrator :: "init_env \<Rightarrow> real \<Rightarrow> config \<Rightarrow> error + orchestrator" where
  "init_orchestrator ienv now c =
     (case signal_error ienv of
        Some e \<Rightarrow> Inl e
      | None \<Rightarrow>
          (case setup_logging ienv c of
             Some e \<Rightarrow> Inl e
           | None \<Rightarrow>
               (case validate_config c of
                  Inl e \<Rightarrow> Inl e
                | Inr _ \<Rightarrow> Inr \<lparr>config = c, publishers = [], running = False, start_time = 0,
                               clock = now, log = []\<rparr>)))"

subsection \<open>create\_publishers\<close>

text \<open>
  Each pass of either loop builds the constructor's arguments (a missing key raises
  KeyError), constructs the publisher (which may raise) and appends it. An exception
  ends the method; the publishers appended before it stay in the list.
\<close>

fun add_publishers ::
  "(string \<Rightarrow> file_status) \<Rightarrow> (error + publisher_args) list \<Rightarrow> orchestrator \<Rightarrow> error option \<times> orchestrator"
where
  "add_publishers fs [] orc = (None, orc)"
| "add_publishers fs (a # as) orc =
     (case a of
        Inl e \<Rightarrow> (Some e, orc)
      | Inr args \<Rightarrow>
          (case init_publisher fs args of
             Inl e \<Rightarrow> (Some e, orc)
           | Inr p \<Rightarrow>
               add_publishers fs as
                 (orc\<lparr>publishers := publishers orc @ [p],
                      log := log orc @ [Log_created (arg_stream_name args)]\<rparr>)))"

definition video_args ::
  "string \<Rightarrow> publisher_section option \<Rightarrow> string \<Rightarrow> bool \<Rightarrow> int \<Rightarrow> int \<Rightarrow> publisher_args" where
  "video_args rtsp_base_url publisher_config vpath vloop vfps i =
     (let name = ''stream'' @ str_int i in
      \<lparr>arg_stream_name = name,
       arg_video_path = vpath,
       arg_rtsp_url = rtsp_base_url @ ''/'' @ name,
       arg_loop = vloop,
       arg_fps = vfps,
       arg_codec = get_or publisher_config pub_codec ''libx264'',
       arg_preset = get_or publisher_config pub_preset ''ultrafast'',
       arg_bitrate = get_or publisher_config pub_bitrate ''2M'',
       arg_pixel_format = get_or publisher_config pub_pixel_format ''yuv420p''\<rparr>)"

definition source_args ::
  "string \<Rightarrow> publisher_section option \<Rightarrow> source_entry \<Rightarrow> error + publisher_args" where
  "source_args rtsp_base_url publisher_config source =
     (case src_name source of
        None \<Rightarrow> Inl (KeyError ''name'')
      | Some name \<Rightarrow>
          (case src_video_path source of
             None \<Rightarrow> Inl (KeyError ''video_path'')
           | Some vpath \<Rightarrow> Inr
               \<lparr>arg_stream_name = name,
                arg_video_path = vpath,
                arg_rtsp_url = rtsp_base_url @ ''/'' @ name,
                arg_loop = (case src_loop source of None \<Rightarrow> True | Some b \<Rightarrow> b),
                arg_fps = (case src_fps source of None \<Rightarrow> 30 | Some f \<Rightarrow> f),
                arg_codec = get_or publisher_config pub_codec ''libx264'',
                arg_preset = get_or publisher_config pub_preset ''ultrafast'',
                arg_bitrate = get_or publisher_config pub_bitrate ''2M'',
                arg_pixel_format = get_or publisher_config pub_pixel_format ''yuv420p''\<rparr>))"

definition log_created_total :: "error option \<times> orchestrator \<Rightarrow> error option \<times> orchestrator" where
  "log_created_total res =
     (case res of
        (Some e, orc) \<Rightarrow> (Some e, orc)
      | (None, orc) \<Rightarrow> (None, orc\<lparr>log := log orc @ [Log_created_total (length (publishers orc))]\<rparr>))"

definition create_publishers ::
  "(string \<Rightarrow> file_status) \<Rightarrow> orchestrator \<Rightarrow> error option \<times> orchestrator" where
  "create_publishers fs orc =
     (let c = config orc in
      case cfg_rtsp_server c of
        None \<Rightarrow> (Some (KeyError ''rtsp_server''), orc)
      | Some srv \<Rightarrow>
          (case srv_base_url srv of
             None \<Rightarrow> (Some (KeyError ''base_url''), orc)
           | Some rtsp_base_url \<Rightarrow>
               (let publisher_config = cfg_publisher c in
                case get_video c of
                  Some video_config \<Rightarrow>
                    (case vid_path video_config of
                       None \<Rightarrow> (Some (KeyError ''path''), orc)
                     | Some vpath \<Rightarrow>
                         (let vloop = get_or (Some video_config) vid_loop True;
                              vfps = get_or (Some video_config) vid_fps 30;
                              concurrent_streams = get_or (cfg_load_test c) lt_concurrent_streams 3
                          in log_created_total
                               (add_publishers fs
                                  (map (\<lambda>i. Inr (video_args rtsp_base_url publisher_config vpath vloop vfps i))
                                     [1..concurrent_streams])
                                  orc)))
                | None \<Rightarrow>
                    (case get_video_sources c of
                       Some video_sources \<Rightarrow>
                         log_created_total
                           (add_publishers fs
                              (map (source_args rtsp_base_url publisher_config) video_sources)
                              orc)
                     | None \<Rightarrow> log_created_total (None, orc)))))"

subsection \<open>stop and the final report\<close>

record stop_env =
  term_res :: term_result
  popen_res :: popen_result

text \<open>
  The report is logged and then, unless monitoring is disabled, written to the metrics
  file: lines 333 to 336 create the parent directory and open the file, and either can
  raise. \<open>write_report\<close> is what the file system answers for a path: \<open>None\<close> when the
  report is written, the exception otherwise. The exception leaves the method after the
  report has been logged.
\<close>

definition generate_final_report ::
  "(string \<Rightarrow> error option) \<Rightarrow> orchestrator \<Rightarrow> error option \<times> orchestrator" where
  "generate_final_report write_report orc =
     (let elapsed = clock orc - start_time orc;
          rep = \<lparr>test_duration_seconds = elapsed,
                 total_streams = length (publishers orc),
                 streams = map (get_stats (clock orc)) (publishers orc)\<rparr>;
          o1 = orc\<lparr>log := log orc @ [Log_final_report rep]\<rparr>
      in if get_or (cfg_monitoring (config orc)) mon_enabled True then
           (let metrics_file =
                  get_or (cfg_monitoring (config orc)) mon_metrics_file ''logs/metrics.json''
            in case write_report metrics_file of
                 Some e \<Rightarrow> (Some e, o1)
               | None \<Rightarrow> (None, o1\<lparr>log := log o1 @ [Log_report_saved metrics_file]\<rparr>))
         else (None, o1))"

text \<open>
  \<open>senv\<close> says, for the publisher of each stream name, how its process answers the
  termination request and what a launch in progress does.
\<close>

definition stop_publisher :: "(string \<Rightarrow> stop_env) \<Rightarrow> publisher \<Rightarrow> publisher" where
  "stop_publisher senv p = stop (term_res (senv (stream_name p))) (popen_res (senv (stream_name p))) p"

text \<open>
  \<open>stop\<close> of the orchestrator. An exception of the report leaves it after \<open>running\<close> is
  false and every publisher has been stopped, before the last log line.
\<close>

definition stop_orchestrator ::
  "(string \<Rightarrow> stop_env) \<Rightarrow> (string \<Rightarrow> error option) \<Rightarrow> orchestrator
     \<Rightarrow> error option \<times> orchestrator" where
  "stop_orchestrator senv write_report orc =
     (if \<not> running orc then (None, orc)
      else
        (let o1 = orc\<lparr>running := False, log := log orc @ [Log_stopping_all]\<rparr>;
             o2 = o1\<lparr>publishers := map (stop_publisher senv) (publishers o1)\<rparr>
         in case generate_final_report write_report o2 of
              (Some e, o3) \<Rightarrow> (Some e, o3)
            | (None, o3) \<Rightarrow> (None, o3\<lparr>log := log o3 @ [Log_stopped]\<rparr>)))"

subsection \<open>The monitoring loop\<close>

record tick_env =
  memory_percent :: real
  cpu_percent :: real
  report_cpu_percent :: real
  report_memory_percent :: real
  stop_envs :: "string \<Rightarrow> stop_env"
  write_report :: "string \<Rightarrow> error option"

definition print_status_report :: "tick_env \<Rightarrow> orchestrator \<Rightarrow> orchestrator" where
  "print_status_report env orc =
     (let o1 = orc\<lparr>clock := clock orc + 1\<rparr>;
          healthy_count = length (filter is_healthy (publishers o1))
      in o1\<lparr>log := log o1 @
           [Log_status_report (report_cpu_percent env) (report_memory_percent env)
              healthy_count (length (publishers o1))
              (map (get_stats (clock o1)) (publishers o1))]\<rparr>)"

text \<open>
  When the memory sample is above its ceiling \<open>stop\<close> is called; an exception that
  leaves \<open>stop\<close> leaves this method too, before the CPU sample.
\<close>

definition check_resource_limits :: "tick_env \<Rightarrow> orchestrator \<Rightarrow> error option \<times> orchestrator" where
  "check_resource_limits env orc =
     (let limits = cfg_limits (config orc);
          max_memory = get_or limits lim_max_memory_percent 80;
          stopped = (if memory_percent env > max_memory
                     then stop_orchestrator (stop_envs env) (write_report env)
                            (orc\<lparr>log := log orc @ [Log_memory_exceeded (memory_percent env) max_memory]\<rparr>)
                     else (None, orc))
      in case stopped of
           (Some e, o1) \<Rightarrow> (Some e, o1)
         | (None, o1) \<Rightarrow>
             (let max_cpu = get_or limits lim_max_cpu_percent 90;
                  o2 = o1\<lparr>clock := clock o1 + 1\<rparr>
              in (None,
                  if cpu_percent env > max_cpu
                  then o2\<lparr>log := log o2 @ [Log_cpu_exceeded (cpu_percent env) max_cpu]\<rparr>
                  else o2)))"

definition check_stream_health :: "(string \<Rightarrow> stop_env) \<Rightarrow> orchestrator \<Rightarrow> orchestrator" where
  "check_stream_health senv orc =
     (let unhealthy_streams = filter (\<lambda>p. \<not> is_healthy p) (publishers orc)
      in if unhealthy_streams = [] then orc
         else orc\<lparr>publishers :=
                    map (\<lambda>p. if \<not> is_healthy p \<and> error_count p \<ge> 10
                             then stop_publisher senv p else p)
                      (publishers orc),
                  log := log orc @ [Log_unhealthy (length unhealthy_streams)] @
                    map (\<lambda>p. Log_too_many_errors (stream_name p))
                      (filter (\<lambda>p. error_count p \<ge> 10) unhealthy_streams)\<rparr>)"

text \<open>
  The body of the \<^verbatim>\<open>while\<close> of line 186 after the duration check: lines 196 to 214.
  An exception that leaves the resource check is caught by the clause of line 212: it is
  logged, the thread sleeps 5, and the health audit and the sleep of line 207 are
  skipped. The samples, the audit and the status report are taken not to raise, and
  KeyboardInterrupt does not occur, the interrupt signal having a handler.
  The supervision threads of the publishers run beside the monitoring loop; their steps
  are not interleaved here, so the functions below say what the monitoring thread itself
  does.
\<close>

definition monitoring_tick :: "tick_env \<Rightarrow> real \<Rightarrow> real \<Rightarrow> orchestrator \<Rightarrow> orchestrator \<times> real" where
  "monitoring_tick env report_interval last_report_time orc =
     (let current_time = clock orc;
          (o1, last1) = (if current_time - last_report_time \<ge> report_interval
                         then (print_status_report env orc, current_time)
                         else (orc, last_report_time))
      in case check_resource_limits env o1 of
           (Some e, o2) \<Rightarrow>
             (o2\<lparr>clock := clock o2 + 5, log := log o2 @ [Log_monitoring_error e]\<rparr>, last1)
         | (None, o2) \<Rightarrow>
             (let o3 = check_stream_health (stop_envs env) o2
              in (o3\<lparr>clock := clock o3 + 1\<rparr>, last1)))"

text \<open>
  The \<^verbatim>\<open>while self.running\<close> loop and the \<^verbatim>\<open>self.stop()\<close> after it. The loop has no
  bound of its own, so the number of passes is limited by \<open>k\<close>, and \<open>None\<close> says that
  the loop is still running after \<open>k\<close> passes. Pass number \<open>i\<close> reads \<open>env i\<close>. The
  result is what the last \<open>stop\<close> returns: the state, and the exception if it raised.
\<close>

fun monitoring_while ::
  "nat \<Rightarrow> (nat \<Rightarrow> tick_env) \<Rightarrow> nat \<Rightarrow> real \<Rightarrow> real \<Rightarrow> real \<Rightarrow> orchestrator
     \<Rightarrow> (error option \<times> orchestrator) option"
where
  "monitoring_while 0 env i report_interval dur last_report_time orc = None"
| "monitoring_while (Suc k) env i report_interval dur last_report_time orc =
     (if \<not> running orc then
        Some (stop_orchestrator (stop_envs (env i)) (write_report (env i)) orc)
      else
        (let elapsed = clock orc - start_time orc
         in if dur > 0 \<and> elapsed \<ge> dur then
              Some (stop_orchestrator (stop_envs (env i)) (write_report (env i))
                      (orc\<lparr>log := log orc @ [Log_duration_reached dur]\<rparr>))
            else
              (case monitoring_tick (env i) report_interval last_report_time orc of
                 (o', last') \<Rightarrow> monitoring_while k env (Suc i) report_interval dur last' o')))"

definition monitoring_loop ::
  "nat \<Rightarrow> (nat \<Rightarrow> tick_env) \<Rightarrow> orchestrator \<Rightarrow> (error option \<times> orchestrator) option" where
  "monitoring_loop k env orc =
     (let report_interval = get_or (cfg_load_test (config orc)) lt_report_interval 10;
          dur = get_or (cfg_load_test (config orc)) lt_duration 0;
          last_report_time = clock orc
      in monitoring_while k env 0 report_interval dur last_report_time orc)"

subsection \<open>start\<close>

fun start_publishers :: "publisher list \<Rightarrow> real \<Rightarrow> publisher list \<times> real" where
  "start_publishers [] t = ([], t)"
| "start_publishers (p # ps) t =
     (case start_publishers ps (t + 0.5) of (ps', t') \<Rightarrow> (start t p # ps', t'))"

text \<open>
  \<open>start\<close> of the orchestrator: \<open>Inl\<close> the exception that leaves it (from
  \<open>create_publishers\<close> or from the \<open>stop\<close> after the loop), \<open>Inr None\<close> while the
  monitoring loop is still running, \<open>Inr\<close> of the state when it has returned.
\<close>

definition start_orchestrator ::
  "nat \<Rightarrow> (string \<Rightarrow> file_status) \<Rightarrow> (nat \<Rightarrow> tick_env) \<Rightarrow> orchestrator \<Rightarrow> error + orchestrator option"
where
  "start_orchestrator k fs env orc =
     (if running orc then Inr (Some (orc\<lparr>log := log orc @ [Log_already_running]\<rparr>))
      else
        (case (if publishers orc = [] then create_publishers fs orc else (None, orc)) of
           (Some e, _) \<Rightarrow> Inl e
         | (None, o1) \<Rightarrow>
             (let o2 = o1\<lparr>running := True, start_time := clock o1,
                          log := log o1 @ [Log_starting]\<rparr>
              in case start_publishers (publishers o2) (clock o2) of
                   (ps, t) \<Rightarrow>
                     (case monitoring_loop k env
                             (o2\<lparr>publishers := ps, clock := t,
                                 log := log o2 @ [Log_started (length ps)]\<rparr>) of
                        None \<Rightarrow> Inr None
                      | Some (Some e, _) \<Rightarrow> Inl e
                      | Some (None, o3) \<Rightarrow> Inr (Some o3)))))"

definition get_stream_urls :: "orchestrator \<Rightarrow> string list" where
  "get_stream_urls orc = map rtsp_url (publishers orc)"

subsection \<open>A configuration and an environment for concrete runs\<close>

text \<open>
  One source video for three streams, the encoder reachable, a file system that holds
  the video, resource samples below every ceiling, and processes that end when asked.
\<close>

definition demo_config :: config where
  "demo_config =
     \<lparr>cfg_video_sources = None,
      cfg_video = Some \<lparr>vid_path = Some ''videos/test.mp4'', vid_loop = None,
                         vid_fps = None, vid_other_keys = []\<rparr>,
      cfg_rtsp_server = Some \<lparr>srv_base_url = Some ''rtsp://localhost:8554'',
                               srv_other_keys = []\<rparr>,
      cfg_limits = None,
      cfg_load_test = Some \<lparr>lt_concurrent_streams = Some 3, lt_report_interval = None,
                            lt_duration = None\<rparr>,
      cfg_publisher = None,
      cfg_monitoring = None\<rparr>"

definition demo_fs :: "string \<Rightarrow> file_status" where
  "demo_fs path =
     (if path = ''videos/test.mp4''
      then Video \<lparr>width = 640, height = 480, native_fps = 30, frames = 300\<rparr>
      else Missing)"

definition demo_orchestrator :: "config \<Rightarrow> orchestrator" where
  "demo_orchestrator c =
     \<lparr>config = c, publishers = [], running = False, start_time = 0, clock = 100, log = []\<rparr>"

definition demo_stop_env :: "string \<Rightarrow> stop_env" where
  "demo_stop_env name = \<lparr>term_res = Term_exited, popen_res = Spawned\<rparr>"

definition demo_write_report :: "string \<Rightarrow> error option" where
  "demo_write_report path = None"

definition demo_init_env :: init_env where
  "demo_init_env = \<lparr>signal_error = None, mkdir_error = None, sink_error = None\<rparr>"

definition demo_env :: "nat \<Rightarrow> tick_env" where
  "demo_env i =
     \<lparr>memory_percent = 50, cpu_percent = 10, report_cpu_percent = 10,
      report_memory_percent = 50, stop_envs = demo_stop_env, write_report = demo_write_report\<rparr>"

definition one_stream_one_second :: config where
  "one_stream_one_second =
     demo_config\<lparr>cfg_load_test := Some \<lparr>lt_concurrent_streams = Some 1,
                     lt_report_interval = None, lt_duration = Some 1\<rparr>\<rparr>"

definition demo_failing_publisher :: publisher where
  "demo_failing_publisher =
     demo_publisher\<lparr>stream_name := ''stream2'', rtsp_url := ''rtsp://localhost:8554/stream2'',
       publisher.running := True, error_count := 10, publisher.start_time := Some 100,
       procs := [\<lparr>alive = False, stderr = ''Connection refused''\<rparr>],
       threads := [Cooldown]\<rparr>"

definition demo_running_orchestrator :: orchestrator where
  "demo_running_orchestrator =
     (demo_orchestrator demo_config)
       \<lparr>publishers := [run demo_publisher [Start 100, Thread_step 0 Spawned, Thread_step 0 Spawned],
                        demo_failing_publisher],
        running := True, start_time := 100, clock := 103\<rparr>"

definition two_stream_limit_no_load_test :: config where
  "two_stream_limit_no_load_test =
     demo_config\<lparr>cfg_load_test := None,
       cfg_limits := Some \<lparr>lim_max_streams = Some 2, lim_max_memory_percent = None,
                            lim_max_cpu_percent = None\<rparr>\<rparr>"

text \<open>The same configuration with the log level written in lower case.\<close>

definition lower_case_log_level :: config where
  "lower_case_log_level =
     demo_config\<lparr>cfg_monitoring := Some \<lparr>mon_log_level = Some ''info'', mon_enabled = None,
                                    mon_metrics_file = None\<rparr>\<rparr>"

section \<open>Properties of the stream publisher\<close>

lemma run_append: "run p (xs @ ys) = run (run p xs) ys"
  by (induction xs arbitrary: p) auto

lemma poll_steps:
  "publisher.running p \<Longrightarrow> threads p = Poll # ts \<Longrightarrow> procs p = x # xs \<Longrightarrow> alive x \<Longrightarrow>
   run p (replicate n (Thread_step 0 r)) = p\<lparr>trace := trace p @ replicate n (Sleep 0.1)\<rparr>"
proof (induction n arbitrary: p)
  case 0
  then show ?case by simp
next
  case (Suc n)
  let ?q = "p\<lparr>trace := trace p @ [Sleep 0.1]\<rparr>"
  have st: "publish_loop_step r 0 p = ?q"
    using Suc.prems by (simp add: publish_loop_step_def process_def)
  have "run ?q (replicate n (Thread_step 0 r)) = ?q\<lparr>trace := trace ?q @ replicate n (Sleep 0.1)\<rparr>"
    using Suc.prems by (intro Suc.IH) simp_all
  then show ?case using st by (simp add: replicate_app_Cons_same)
qed

lemma build_ffmpeg_command_frame [simp]:
  "build_ffmpeg_command (p\<lparr>threads := ths\<rparr>) = build_ffmpeg_command p"
  "build_ffmpeg_command (p\<lparr>procs := ps\<rparr>) = build_ffmpeg_command p"
  "build_ffmpeg_command (p\<lparr>trace := tr\<rparr>) = build_ffmpeg_command p"
  "build_ffmpeg_command (p\<lparr>error_count := n\<rparr>) = build_ffmpeg_command p"
  "build_ffmpeg_command (p\<lparr>publisher.running := b\<rparr>) = build_ffmpeg_command p"
  "build_ffmpeg_command (p\<lparr>publisher.start_time := t\<rparr>) = build_ffmpeg_command p"
  by (simp_all add: build_ffmpeg_command_def)

lemma launch_steps:
  assumes "publisher.running p" and "threads p = Head # ts"
  shows "run p [Thread_step 0 r, Thread_step 0 Spawned] =
         p\<lparr>procs := \<lparr>alive = True, stderr = []\<rparr> # procs p,
           trace := trace p @ [Popen (build_ffmpeg_command p)],
           threads := Poll # ts\<rparr>"
  using assms by (simp add: publish_loop_step_def)

lemma polling_state:
  assumes "publisher.running p" and "threads p = Head # ts"
  shows "run p ([Thread_step 0 r, Thread_step 0 Spawned] @ replicate n (Thread_step 0 r)) =
         p\<lparr>procs := \<lparr>alive = True, stderr = []\<rparr> # procs p,
           trace := trace p @ [Popen (build_ffmpeg_command p)] @ replicate n (Sleep 0.1),
           threads := Poll # ts\<rparr>"
proof -
  let ?q = "p\<lparr>procs := \<lparr>alive = True, stderr = []\<rparr> # procs p,
           trace := trace p @ [Popen (build_ffmpeg_command p)],
           threads := Poll # ts\<rparr>"
  have "run ?q (replicate n (Thread_step 0 r)) = ?q\<lparr>trace := trace ?q @ replicate n (Sleep 0.1)\<rparr>"
    using assms by (intro poll_steps [where x = "\<lparr>alive = True, stderr = []\<rparr>" and xs = "procs p"]) simp_all
  then show ?thesis
    unfolding run_append launch_steps [OF assms] by simp
qed

lemma unexpected_end_steps:
  assumes "publisher.running q" and "threads q = Poll # ts" and "procs q = \<lparr>alive = True, stderr = []\<rparr> # xs"
  shows "run q [Proc_exit 0 err, Thread_step 0 r, Thread_step 0 r, Thread_step 0 r] =
         q\<lparr>error_count := error_count q + 1,
           procs := \<lparr>alive = False, stderr = err\<rparr> # xs,
           trace := trace q @ [Log_unexpected_end (take 500 err), Sleep 2],
           threads := Head # ts\<rparr>"
  using assms by (simp add: publish_loop_step_def proc_exit_def process_def)

lemma stop_while_polling:
  assumes "publisher.running q" and "threads q = Poll # ts" and "procs q = x # xs"
  shows "error_count (stop tr r q) = error_count q \<and> threads (stop tr r q) = Exited # ts
         \<and> trace (stop tr r q) = trace q \<and> \<not> publisher.running (stop tr r q)"
  using assms
  by (cases tr) (simp_all add: stop_def terminate_process_def publish_loop_step_def process_def
      thread_def is_alive_def numeral_eq_Suc)

text \<open>
  Claim C1. A publisher is running and its supervision thread is at the head of the
  loop. The thread launches the process and then polls it; each of the \<open>n\<close> polls that
  finds the process alive sleeps 0.1. When the process then ends on its own with
  diagnostic output \<open>err\<close>, the pass ends with the error counter one higher, the first
  500 characters of \<open>err\<close> logged, a sleep of 2, and the thread back at the head with
  \<open>running\<close> still true, where its next two steps launch a new process. When instead
  \<open>stop\<close> is called during the polling, the thread returns, the counter is unchanged and
  nothing more is launched.
\<close>

theorem publish_loop_iteration:
  assumes "publisher.running p" and "threads p = Head # ts"
  shows
   "run p ([Thread_step 0 r, Thread_step 0 Spawned] @ replicate n (Thread_step 0 r)
            @ [Proc_exit 0 err, Thread_step 0 r, Thread_step 0 r, Thread_step 0 r])
      = p\<lparr>error_count := error_count p + 1,
           procs := \<lparr>alive = False, stderr = err\<rparr> # procs p,
           trace := trace p @ [Popen (build_ffmpeg_command p)] @ replicate n (Sleep 0.1)
                     @ [Log_unexpected_end (take 500 err), Sleep 2]\<rparr>
    \<and> length (take 500 err) \<le> 500
    \<and> procs (run p ([Thread_step 0 r, Thread_step 0 Spawned] @ replicate n (Thread_step 0 r)
            @ [Proc_exit 0 err, Thread_step 0 r, Thread_step 0 r, Thread_step 0 r]
            @ [Thread_step 0 r, Thread_step 0 Spawned]))
        = \<lparr>alive = True, stderr = []\<rparr> # \<lparr>alive = False, stderr = err\<rparr> # procs p
    \<and> (let q = run p ([Thread_step 0 r, Thread_step 0 Spawned] @ replicate n (Thread_step 0 r)
            @ [Stop tr r])
       in error_count q = error_count p \<and> threads q = Exited # ts \<and> \<not> publisher.running q
          \<and> trace q = trace p @ [Popen (build_ffmpeg_command p)] @ replicate n (Sleep 0.1))"
proof -
  let ?ev = "[Thread_step 0 r, Thread_step 0 Spawned] @ replicate n (Thread_step 0 r)"
  let ?exit = "[Proc_exit 0 err, Thread_step 0 r, Thread_step 0 r, Thread_step 0 r]"
  let ?q = "p\<lparr>procs := \<lparr>alive = True, stderr = []\<rparr> # procs p,
           trace := trace p @ [Popen (build_ffmpeg_command p)] @ replicate n (Sleep 0.1),
           threads := Poll # ts\<rparr>"
  let ?e = "p\<lparr>error_count := error_count p + 1,
           procs := \<lparr>alive = False, stderr = err\<rparr> # procs p,
           trace := trace p @ [Popen (build_ffmpeg_command p)] @ replicate n (Sleep 0.1)
                     @ [Log_unexpected_end (take 500 err), Sleep 2]\<rparr>"
  have q: "run p ?ev = ?q" using assms by (rule polling_state)
  have "run ?q ?exit =
        ?q\<lparr>error_count := error_count ?q + 1,
           procs := \<lparr>alive = False, stderr = err\<rparr> # procs p,
           trace := trace ?q @ [Log_unexpected_end (take 500 err), Sleep 2],
           threads := Head # ts\<rparr>"
    using assms by (intro unexpected_end_steps) simp_all
  also have "\<dots> = ?e" using assms by simp
  finally have "run (run p ?ev) ?exit = ?e" using q by simp
  then have e: "run p (?ev @ ?exit) = ?e" by (simp only: run_append [of p ?ev ?exit])
  have "run ?e [Thread_step 0 r, Thread_step 0 Spawned] =
         ?e\<lparr>procs := \<lparr>alive = True, stderr = []\<rparr> # procs ?e,
           trace := trace ?e @ [Popen (build_ffmpeg_command ?e)],
           threads := Poll # ts\<rparr>"
    using assms by (intro launch_steps) simp_all
  then have "procs (run (run p (?ev @ ?exit)) [Thread_step 0 r, Thread_step 0 Spawned])
        = \<lparr>alive = True, stderr = []\<rparr> # \<lparr>alive = False, stderr = err\<rparr> # procs p"
    unfolding e by simp
  then have a: "procs (run p ((?ev @ ?exit) @ [Thread_step 0 r, Thread_step 0 Spawned]))
        = \<lparr>alive = True, stderr = []\<rparr> # \<lparr>alive = False, stderr = err\<rparr> # procs p"
    by (simp only: run_append [of p "?ev @ ?exit"])
  have "error_count (stop tr r ?q) = error_count ?q \<and> threads (stop tr r ?q) = Exited # ts
         \<and> trace (stop tr r ?q) = trace ?q \<and> \<not> publisher.running (stop tr r ?q)"
    using assms by (intro stop_while_polling) simp_all
  then have "error_count (run (run p ?ev) [Stop tr r]) = error_count p
      \<and> threads (run (run p ?ev) [Stop tr r]) = Exited # ts
      \<and> \<not> publisher.running (run (run p ?ev) [Stop tr r])
      \<and> trace (run (run p ?ev) [Stop tr r]) =
          trace p @ [Popen (build_ffmpeg_command p)] @ replicate n (Sleep 0.1)"
    unfolding q by simp
  then have s: "let q = run p (?ev @ [Stop tr r])
       in error_count q = error_count p \<and> threads q = Exited # ts \<and> \<not> publisher.running q
          \<and> trace q = trace p @ [Popen (build_ffmpeg_command p)] @ replicate n (Sleep 0.1)"
    by (simp only: run_append [of p ?ev] Let_def simp_thms)
  from e a s show ?thesis
    by (simp only: append_assoc take_all_iff length_take min.cobounded2 simp_thms)
qed

theorem publish_loop_iteration_witness:
  "publisher.running (start 0 demo_publisher) \<and> threads (start 0 demo_publisher) = [Head]
   \<and> error_count (run (start 0 demo_publisher)
        ([Thread_step 0 Spawned, Thread_step 0 Spawned] @ replicate 2 (Thread_step 0 Spawned)
          @ [Proc_exit 0 ''Connection refused'', Thread_step 0 Spawned, Thread_step 0 Spawned,
             Thread_step 0 Spawned])) = 1"
  using publish_loop_iteration [of "start 0 demo_publisher" "[]" Spawned 2
      "''Connection refused''" Term_exited]
  by (simp add: start_def demo_publisher_def)

subsection \<open>The error counter\<close>

lemma loop_step_error_count: "error_count p \<le> error_count (fst (loop_step r p c))"
  by (cases c; cases r) (auto simp: loop_error_def split: option.splits)

lemma publish_loop_step_error_count: "error_count p \<le> error_count (publish_loop_step r i p)"
proof (cases "i < length (threads p)")
  case True
  obtain p' c' where s: "loop_step r p (threads p ! i) = (p', c')"
    by (cases "loop_step r p (threads p ! i)")
  have "error_count p \<le> error_count p'"
    using loop_step_error_count [of p r "threads p ! i"] s by simp
  then show ?thesis using True s by (simp add: publish_loop_step_def)
next
  case False
  then show ?thesis by (simp add: publish_loop_step_def)
qed

lemma join_thread_error_count: "error_count p \<le> error_count (join_thread n r p)"
proof (induction n arbitrary: p)
  case 0
  show ?case by simp
next
  case (Suc n)
  have "error_count p \<le> error_count (publish_loop_step r 0 p)"
    by (rule publish_loop_step_error_count)
  also have "\<dots> \<le> error_count (join_thread n r (publish_loop_step r 0 p))"
    by (rule Suc.IH)
  finally show ?case by (simp split: option.splits)
qed

lemma terminate_process_error_count: "error_count (terminate_process tr p) = error_count p"
  by (simp add: terminate_process_def split: list.splits term_result.splits)

lemma stop_error_count: "error_count p \<le> error_count (stop tr r p)"
proof -
  have "error_count (terminate_process tr (p\<lparr>publisher.running := False\<rparr>)) = error_count p"
    by (simp add: terminate_process_error_count)
  then show ?thesis
    unfolding stop_def
    using join_thread_error_count [of "terminate_process tr (p\<lparr>publisher.running := False\<rparr>)" 4 r]
    by simp
qed

lemma step_error_count: "error_count p \<le> error_count (step p e)"
  by (cases e)
    (simp_all add: start_def proc_exit_def stop_error_count publish_loop_step_error_count)

lemma run_error_count: "error_count p \<le> error_count (run p es)"
proof (induction es arbitrary: p)
  case Nil
  show ?case by simp
next
  case (Cons e es)
  have "error_count p \<le> error_count (step p e)" by (rule step_error_count)
  also have "\<dots> \<le> error_count (run (step p e) es)" by (rule Cons.IH)
  finally show ?case by simp
qed

text \<open>
  Claim C5. Along every sequence of operations on a publisher (start, stop, get\_stats,
  is\_healthy, steps of its supervision threads, its processes ending), the error counter
  never decreases: after any further operations it is at least what it was.
\<close>

theorem error_count_monotone:
  "error_count (run p es) \<le> error_count (run p (es @ es'))"
  unfolding run_append by (rule run_error_count)

theorem error_count_monotone_witness:
  "error_count (run demo_publisher [Start 0, Thread_step 0 Spawned, Thread_step 0 Raised])
     \<le> error_count (run demo_publisher ([Start 0, Thread_step 0 Spawned, Thread_step 0 Raised]
          @ [Thread_step 0 Spawned, Stop Term_exited Spawned, Get_stats 3, Is_healthy]))
   \<and> error_count (run demo_publisher [Start 0, Thread_step 0 Spawned, Thread_step 0 Raised]) = 1"
  using error_count_monotone [of demo_publisher
      "[Start 0, Thread_step 0 Spawned, Thread_step 0 Raised]"
      "[Thread_step 0 Spawned, Stop Term_exited Spawned, Get_stats 3, Is_healthy]"]
  by (simp add: demo_publisher_def start_def publish_loop_step_def loop_error_def)

subsection \<open>Live processes\<close>

text \<open>
  Claim C6, at a run the code allows. The publisher is started and its thread finds
  \<open>running\<close> true at line 132. Before the thread reaches Popen, \<open>stop\<close> is called:
  it finds no process to terminate and waits for the thread, which launches its process,
  sees \<open>running\<close> false and returns, leaving the process alive. The publisher is
  started again and the new thread launches a second process while the first is alive.
\<close>

theorem double_launch_after_restart:
  "live_processes (run demo_publisher
      [Start 0, Thread_step 0 Spawned, Stop Term_exited Spawned,
       Start 1, Thread_step 0 Spawned, Thread_step 0 Spawned]) = 2"
  by (simp add: demo_publisher_def start_def stop_def publish_loop_step_def terminate_process_def
      thread_def is_alive_def process_def live_processes_def numeral_eq_Suc)

subsection \<open>stop, called twice\<close>

lemma loop_step_running: "publisher.running (fst (loop_step r p c)) = publisher.running p"
  by (cases c; cases r) (auto simp: loop_error_def split: option.splits)

lemma publish_loop_step_running: "publisher.running (publish_loop_step r i p) = publisher.running p"
proof (cases "i < length (threads p)")
  case True
  obtain p' c' where s: "loop_step r p (threads p ! i) = (p', c')"
    by (cases "loop_step r p (threads p ! i)")
  have "publisher.running p' = publisher.running p"
    using loop_step_running [of r p "threads p ! i"] s by simp
  then show ?thesis using True s by (simp add: publish_loop_step_def)
next
  case False
  then show ?thesis by (simp add: publish_loop_step_def)
qed

lemma join_thread_running: "publisher.running (join_thread n r p) = publisher.running p"
  by (induction n arbitrary: p) (simp_all add: publish_loop_step_running split: option.splits)

lemma terminate_process_running:
  "publisher.running (terminate_process tr p) = publisher.running p"
  by (simp add: terminate_process_def split: list.splits term_result.splits)

lemma stop_not_running: "\<not> publisher.running (stop tr r p)"
  by (simp add: stop_def join_thread_running terminate_process_running)

lemma running_update_same: "\<not> publisher.running s \<Longrightarrow> s\<lparr>publisher.running := False\<rparr> = s"
  by (cases s) simp

lemma stop_quiescent:
  assumes "\<not> publisher.running s"
    and "\<forall>c. thread s = Some c \<longrightarrow> c = Exited"
    and "\<forall>x. process s = Some x \<longrightarrow> \<not> alive x"
  shows "stop tr r s = s"
proof -
  have t: "terminate_process tr s = s"
    using assms(3) by (simp add: terminate_process_def process_def split: list.splits)
  have j: "join_thread 4 r s = s"
    using assms(2) by (cases "thread s") (simp_all add: numeral_eq_Suc is_alive_def)
  show ?thesis
    unfolding stop_def running_update_same [OF assms(1)] t j ..
qed

lemma join_thread_stopped:
  assumes "\<not> publisher.running q" and "threads q = c # cs" and "c \<noteq> Launch"
  shows "publisher.running (join_thread 4 r q) = False \<and> threads (join_thread 4 r q) = Exited # cs
         \<and> procs (join_thread 4 r q) = procs q"
  using assms
  by (cases c) (simp_all add: numeral_eq_Suc thread_def is_alive_def publish_loop_step_def)

lemma join_thread_no_thread:
  assumes "threads q = []"
  shows "join_thread n r q = q"
  using assms by (cases n) (simp_all add: thread_def)

lemma terminate_process_result:
  assumes "tr \<noteq> Term_error"
  shows "publisher.running (terminate_process tr q) = publisher.running q
         \<and> threads (terminate_process tr q) = threads q
         \<and> (\<forall>x. process (terminate_process tr q) = Some x \<longrightarrow> \<not> alive x)"
  using assms
  by (cases tr; cases "procs q") (simp_all add: terminate_process_def process_def)

lemma join_thread_exits:
  assumes "\<not> publisher.running q" and "threads q = c # cs"
  shows "threads (join_thread 4 r q) = Exited # cs"
  using assms
  by (cases c; cases r)
    (simp_all add: numeral_eq_Suc thread_def is_alive_def publish_loop_step_def process_def
      loop_error_def split: list.splits)

text \<open>
  Claim C7 as stated fails when the termination request itself fails: the
  \<^verbatim>\<open>except Exception\<close> of line 180 logs the error and leaves the process as it is, so
  two calls of \<open>stop\<close> can both return with the process alive.
\<close>

theorem stop_twice_counterexample:
  "process (stop Term_error Spawned (stop Term_error Spawned
      (run demo_publisher [Start 0, Thread_step 0 Spawned, Thread_step 0 Spawned])))
   = Some \<lparr>alive = True, stderr = []\<rparr>"
  by (simp add: demo_publisher_def start_def stop_def publish_loop_step_def terminate_process_def
      thread_def is_alive_def process_def numeral_eq_Suc)

text \<open>
  Claim C7, amended. \<open>stop\<close> always leaves \<open>running\<close> false, and it returns a state in
  every case: no exception leaves it. When the termination request does not fail and the
  supervision thread is not between its check of \<open>running\<close> and its launch, the current
  process is not alive after \<open>stop\<close>, the only processes still alive are older ones that
  were alive before, and a second \<open>stop\<close> right after the first changes nothing,
  whatever its termination request and launch would do.
\<close>

theorem stop_idempotent:
  "\<not> publisher.running (stop tr r p)
   \<and> (tr \<noteq> Term_error \<and> thread p \<noteq> Some Launch \<longrightarrow>
        stop tr' r' (stop tr r p) = stop tr r p
        \<and> (\<forall>x. process (stop tr r p) = Some x \<longrightarrow> \<not> alive x)
        \<and> live_processes (stop tr r p) = length (filter alive (tl (procs p))))"
proof (intro conjI impI)
  show "\<not> publisher.running (stop tr r p)" by (rule stop_not_running)
next
  assume a: "tr \<noteq> Term_error \<and> thread p \<noteq> Some Launch"
  let ?q = "terminate_process tr (p\<lparr>publisher.running := False\<rparr>)"
  have q: "\<not> publisher.running ?q" "threads ?q = threads p"
    "\<forall>x. process ?q = Some x \<longrightarrow> \<not> alive x"
    using terminate_process_result [of tr "p\<lparr>publisher.running := False\<rparr>"] a by simp_all
  have l: "length (filter alive (procs ?q)) = length (filter alive (tl (procs p)))"
    using a by (cases tr; cases "procs p") (simp_all add: terminate_process_def)
  have s: "\<not> publisher.running (stop tr r p)
      \<and> (\<forall>c. thread (stop tr r p) = Some c \<longrightarrow> c = Exited)
      \<and> (\<forall>x. process (stop tr r p) = Some x \<longrightarrow> \<not> alive x)
      \<and> procs (stop tr r p) = procs ?q"
  proof (cases "threads p")
    case Nil
    then have "stop tr r p = ?q"
      using q(2) by (simp add: stop_def join_thread_no_thread)
    then show ?thesis using q Nil by (simp add: thread_def)
  next
    case (Cons c cs)
    with a have "c \<noteq> Launch" by (simp add: thread_def)
    with q Cons have "publisher.running (join_thread 4 r ?q) = False
        \<and> threads (join_thread 4 r ?q) = Exited # cs
        \<and> procs (join_thread 4 r ?q) = procs ?q"
      by (intro join_thread_stopped) simp_all
    then show ?thesis
      using q(3) by (simp add: stop_def thread_def process_def)
  qed
  then show "stop tr' r' (stop tr r p) = stop tr r p"
    by (intro stop_quiescent) simp_all
  from s show "\<forall>x. process (stop tr r p) = Some x \<longrightarrow> \<not> alive x" by simp
  from s l show "live_processes (stop tr r p) = length (filter alive (tl (procs p)))"
    by (simp add: live_processes_def)
qed

theorem stop_idempotent_witness:
  "Term_exited \<noteq> Term_error
   \<and> thread (run demo_publisher [Start 0, Thread_step 0 Spawned, Thread_step 0 Spawned]) \<noteq> Some Launch
   \<and> stop Term_timeout Raised (stop Term_exited Spawned
        (run demo_publisher [Start 0, Thread_step 0 Spawned, Thread_step 0 Spawned]))
     = stop Term_exited Spawned
        (run demo_publisher [Start 0, Thread_step 0 Spawned, Thread_step 0 Spawned])
   \<and> live_processes (stop Term_exited Spawned
        (run demo_publisher [Start 0, Thread_step 0 Spawned, Thread_step 0 Spawned])) = 0"
  using stop_idempotent [of Term_exited Spawned
      "run demo_publisher [Start 0, Thread_step 0 Spawned, Thread_step 0 Spawned]"
      Term_timeout Raised]
  by (simp add: demo_publisher_def start_def publish_loop_step_def thread_def)

subsection \<open>Runs without the race\<close>

text \<open>
  The run of claim C6 has a \<open>stop\<close> between the thread's check and its launch. In
  calm runs the publisher does one thing at a time: from construction on, at most one
  of its processes and at most one of its supervision threads is alive, and \<open>start\<close> on a
  running publisher changes nothing.
\<close>

lemma start_while_running: "publisher.running p \<Longrightarrow> start now p = p"
  by (simp add: start_def)

lemma one_at_a_time_live:
  assumes "one_at_a_time p"
  shows "live_processes p \<le> 1 \<and> live_threads p \<le> 1"
proof -
  have a: "filter alive (tl (procs p)) = []" and b: "filter is_alive (tl (threads p)) = []"
    using assms by (auto simp add: one_at_a_time_def filter_empty_conv is_alive_def)
  have "length (filter alive (procs p)) \<le> 1"
    using a by (cases "procs p") simp_all
  moreover have "length (filter is_alive (threads p)) \<le> 1"
    using b by (cases "threads p") simp_all
  ultimately show ?thesis by (simp add: live_processes_def live_threads_def)
qed

lemma one_at_a_time_start:
  assumes "one_at_a_time p"
  shows "one_at_a_time (start now p)"
  using assms
  by (cases "threads p"; cases "procs p")
    (auto simp add: one_at_a_time_def start_def thread_def process_def)

lemma one_at_a_time_proc_exit:
  assumes "one_at_a_time p"
  shows "one_at_a_time (proc_exit i err p)"
proof (cases "i < length (procs p) \<and> alive (procs p ! i)")
  case False
  then have "proc_exit i err p = p" by (auto simp add: proc_exit_def)
  with assms show ?thesis by simp
next
  case True
  then obtain x xs where ps: "procs p = x # xs" by (cases "procs p") auto
  have dead: "\<forall>y \<in> set xs. \<not> alive y"
    using assms ps by (simp add: one_at_a_time_def)
  have i0: "i = 0"
  proof (rule ccontr)
    assume "i \<noteq> 0"
    then obtain j where "i = Suc j" by (cases i) auto
    with True ps have "j < length xs" "alive (xs ! j)" by simp_all
    with dead show False by (metis nth_mem)
  qed
  show ?thesis
    using assms ps True i0
    by (auto simp add: one_at_a_time_def proc_exit_def thread_def process_def)
qed

lemma one_at_a_time_old_thread:
  assumes "one_at_a_time p" and "i \<noteq> 0"
  shows "publish_loop_step r i p = p"
proof (cases "i < length (threads p)")
  case False
  then show ?thesis by (simp add: publish_loop_step_def)
next
  case True
  then obtain c cs where ts: "threads p = c # cs" by (cases "threads p") auto
  obtain j where j: "i = Suc j" using assms(2) by (cases i) auto
  have "cs ! j = Exited"
    using assms(1) ts True j by (simp add: one_at_a_time_def)
  then have "threads p ! i = Exited" using ts j by simp
  then show ?thesis
    using True by (simp add: publish_loop_step_def list_update_same_conv)
qed

lemma one_at_a_time_thread_step:
  assumes "one_at_a_time p"
  shows "one_at_a_time (publish_loop_step r i p)"
proof (cases "i = 0")
  case False
  with assms show ?thesis by (simp add: one_at_a_time_old_thread)
next
  case True
  show ?thesis
  proof (cases "threads p")
    case Nil
    with assms True show ?thesis by (simp add: publish_loop_step_def)
  next
    case (Cons c cs)
    show ?thesis
      using assms True Cons
      by (cases c; cases r; cases "procs p")
        (auto simp add: one_at_a_time_def publish_loop_step_def thread_def process_def
          loop_error_def)
  qed
qed

lemma terminate_process_procs:
  assumes "tr \<noteq> Term_error"
  shows "procs (terminate_process tr q) =
         (case procs q of [] \<Rightarrow> [] | x # xs \<Rightarrow> x\<lparr>alive := False\<rparr> # xs)"
proof (cases "procs q")
  case Nil
  then show ?thesis by (simp add: terminate_process_def)
next
  case (Cons x xs)
  have "\<not> alive x \<Longrightarrow> x\<lparr>alive := False\<rparr> = x" by (cases x) simp
  with Cons assms show ?thesis
    by (cases tr) (auto simp add: terminate_process_def)
qed

lemma one_at_a_time_stop:
  assumes "one_at_a_time p" and "tr \<noteq> Term_error" and "thread p \<noteq> Some Launch"
  shows "one_at_a_time (stop tr r p)"
proof -
  let ?q = "terminate_process tr (p\<lparr>publisher.running := False\<rparr>)"
  have q: "\<not> publisher.running ?q" "threads ?q = threads p"
    using terminate_process_result [OF assms(2), of "p\<lparr>publisher.running := False\<rparr>"]
    by simp_all
  have pq: "procs ?q = (case procs p of [] \<Rightarrow> [] | x # xs \<Rightarrow> x\<lparr>alive := False\<rparr> # xs)"
    using terminate_process_procs [OF assms(2), of "p\<lparr>publisher.running := False\<rparr>"]
    by simp
  have s: "\<not> publisher.running (stop tr r p) \<and> procs (stop tr r p) = procs ?q
      \<and> (threads p = [] \<longrightarrow> threads (stop tr r p) = [])
      \<and> (\<forall>c cs. threads p = c # cs \<longrightarrow> threads (stop tr r p) = Exited # cs)"
  proof (cases "threads p")
    case Nil
    then have "stop tr r p = ?q"
      using q(2) by (simp add: stop_def join_thread_no_thread)
    then show ?thesis using q Nil by simp
  next
    case (Cons c cs)
    with assms(3) have "c \<noteq> Launch" by (simp add: thread_def)
    with q Cons have "publisher.running (join_thread 4 r ?q) = False
        \<and> threads (join_thread 4 r ?q) = Exited # cs
        \<and> procs (join_thread 4 r ?q) = procs ?q"
      by (intro join_thread_stopped) simp_all
    then show ?thesis using Cons by (simp add: stop_def)
  qed
  show ?thesis
    using assms(1) s pq
    by (cases "threads p"; cases "procs p")
      (auto simp add: one_at_a_time_def thread_def process_def)
qed

lemma one_at_a_time_run:
  assumes "one_at_a_time p" and "calm p es"
  shows "one_at_a_time (run p es)"
  using assms
proof (induction es arbitrary: p)
  case Nil
  then show ?case by simp
next
  case (Cons e es)
  have "one_at_a_time (step p e)"
    using Cons.prems
    by (cases e)
      (simp_all add: one_at_a_time_start one_at_a_time_thread_step one_at_a_time_proc_exit
        one_at_a_time_stop)
  moreover have "calm (step p e) es" using Cons.prems by simp
  ultimately have "one_at_a_time (run (step p e) es)" by (rule Cons.IH)
  then show ?case by simp
qed

lemma one_process_in_calm_runs:
  assumes "init_publisher fs a = Inr p" and "calm p es"
  shows "live_processes (run p es) \<le> 1 \<and> live_threads (run p es) \<le> 1"
proof -
  have "one_at_a_time p"
    using assms(1)
    by (auto simp add: init_publisher_def one_at_a_time_def thread_def process_def
        split: file_status.splits)
  then have "one_at_a_time (run p es)" using assms(2) by (rule one_at_a_time_run)
  then show ?thesis by (rule one_at_a_time_live)
qed

section \<open>Properties of the orchestrator\<close>

subsection \<open>What each method leaves unchanged\<close>

lemma stop_publisher_not_running: "\<not> publisher.running (stop_publisher senv p)"
  by (simp add: stop_publisher_def stop_not_running)

lemma generate_final_report_fields:
  "running (snd (generate_final_report wr orc)) = running orc"
  "clock (snd (generate_final_report wr orc)) = clock orc"
  "start_time (snd (generate_final_report wr orc)) = start_time orc"
  "config (snd (generate_final_report wr orc)) = config orc"
  "publishers (snd (generate_final_report wr orc)) = publishers orc"
  "count_list (log (snd (generate_final_report wr orc))) Log_stopping_all
     = count_list (log orc) Log_stopping_all"
  by (simp_all add: generate_final_report_def Let_def split: option.splits)

lemma stop_orchestrator_fields:
  "\<not> running (snd (stop_orchestrator senv wr orc))"
  "clock (snd (stop_orchestrator senv wr orc)) = clock orc"
  "start_time (snd (stop_orchestrator senv wr orc)) = start_time orc"
  "config (snd (stop_orchestrator senv wr orc)) = config orc"
  "length (publishers (snd (stop_orchestrator senv wr orc))) = length (publishers orc)"
  by (simp_all add: stop_orchestrator_def Let_def case_prod_unfold generate_final_report_fields
      split: option.splits)

lemma stop_orchestrator_publishers:
  "running orc \<Longrightarrow>
   publishers (snd (stop_orchestrator senv wr orc)) = map (stop_publisher senv) (publishers orc)"
  by (simp add: stop_orchestrator_def Let_def case_prod_unfold generate_final_report_fields
      split: option.splits)

lemma stop_orchestrator_log:
  "running orc \<Longrightarrow>
   count_list (log (snd (stop_orchestrator senv wr orc))) Log_stopping_all
     = count_list (log orc) Log_stopping_all + 1"
  by (simp add: stop_orchestrator_def Let_def case_prod_unfold generate_final_report_fields
      split: option.splits)

lemma check_stream_health_fields:
  "running (check_stream_health senv orc) = running orc"
  "clock (check_stream_health senv orc) = clock orc"
  "start_time (check_stream_health senv orc) = start_time orc"
  "config (check_stream_health senv orc) = config orc"
  "length (publishers (check_stream_health senv orc)) = length (publishers orc)"
  by (simp_all add: check_stream_health_def Let_def)

lemma check_stream_health_log:
  "count_list (log (check_stream_health senv orc)) Log_stopping_all
     = count_list (log orc) Log_stopping_all"
  by (auto simp add: check_stream_health_def Let_def count_list_0_iff)

lemma print_status_report_fields:
  "running (print_status_report env orc) = running orc"
  "clock (print_status_report env orc) = clock orc + 1"
  "start_time (print_status_report env orc) = start_time orc"
  "config (print_status_report env orc) = config orc"
  "publishers (print_status_report env orc) = publishers orc"
  "count_list (log (print_status_report env orc)) Log_stopping_all
     = count_list (log orc) Log_stopping_all"
  by (simp_all add: print_status_report_def Let_def)

text \<open>The resource check: its result when it returns and when an exception leaves it.\<close>

lemma check_resource_limits_fields:
  "start_time (snd (check_resource_limits env orc)) = start_time orc"
  "config (snd (check_resource_limits env orc)) = config orc"
  "length (publishers (snd (check_resource_limits env orc))) = length (publishers orc)"
  "clock (snd (check_resource_limits env orc))
     = clock orc + (if fst (check_resource_limits env orc) = None then 1 else 0)"
  by (simp_all add: check_resource_limits_def Let_def case_prod_unfold stop_orchestrator_fields
      split: option.splits)

lemma monitoring_tick_clock:
  "clock (fst (monitoring_tick env report_interval lrt orc)) \<ge> clock orc + 2"
  by (simp add: monitoring_tick_def Let_def case_prod_unfold check_stream_health_fields
      check_resource_limits_fields print_status_report_fields split: option.splits)

lemma monitoring_tick_start_time:
  "start_time (fst (monitoring_tick env report_interval lrt orc)) = start_time orc"
  by (simp add: monitoring_tick_def Let_def case_prod_unfold check_stream_health_fields
      check_resource_limits_fields print_status_report_fields split: option.splits)

lemma monitoring_while_ends_now:
  assumes "dur > 0" and "clock orc - start_time orc \<ge> dur"
  shows "\<exists>res. monitoring_while (Suc k) env i report_interval dur lrt orc = Some res
               \<and> \<not> running (snd res)"
proof (cases "running orc")
  case True
  with assms have "monitoring_while (Suc k) env i report_interval dur lrt orc
      = Some (stop_orchestrator (stop_envs (env i)) (write_report (env i))
                (orc\<lparr>log := log orc @ [Log_duration_reached dur]\<rparr>))"
    by simp
  then show ?thesis by (simp add: stop_orchestrator_fields)
next
  case False
  then have "monitoring_while (Suc k) env i report_interval dur lrt orc
      = Some (stop_orchestrator (stop_envs (env i)) (write_report (env i)) orc)"
    by simp
  then show ?thesis by (simp add: stop_orchestrator_fields)
qed

lemma monitoring_while_stops:
  assumes "dur > 0"
  shows "dur - (clock orc - start_time orc) < 2 * real k \<Longrightarrow>
         \<exists>res. monitoring_while (Suc k) env i report_interval dur lrt orc = Some res
                \<and> \<not> running (snd res)"
proof (induction k arbitrary: orc i lrt)
  case 0
  then have "clock orc - start_time orc \<ge> dur" by simp
  with assms show ?case by (rule monitoring_while_ends_now)
next
  case (Suc k)
  show ?case
  proof (cases "\<not> running orc \<or> clock orc - start_time orc \<ge> dur")
    case True
    then show ?thesis
    proof
      assume "\<not> running orc"
      then have "monitoring_while (Suc (Suc k)) env i report_interval dur lrt orc
          = Some (stop_orchestrator (stop_envs (env i)) (write_report (env i)) orc)"
        by simp
      then show ?thesis by (simp add: stop_orchestrator_fields)
    next
      assume "clock orc - start_time orc \<ge> dur"
      with assms show ?thesis by (rule monitoring_while_ends_now)
    qed
  next
    case False
    obtain o' lrt' where t: "monitoring_tick (env i) report_interval lrt orc = (o', lrt')"
      by (cases "monitoring_tick (env i) report_interval lrt orc")
    have "clock o' \<ge> clock orc + 2" and "start_time o' = start_time orc"
      using monitoring_tick_clock [of orc "env i" report_interval lrt]
        monitoring_tick_start_time [of "env i" report_interval lrt orc] t
      by simp_all
    with Suc.prems have "dur - (clock o' - start_time o') < 2 * real k" by simp
    then obtain res where
      "monitoring_while (Suc k) env (Suc i) report_interval dur lrt' o' = Some res"
      and "\<not> running (snd res)"
      using Suc.IH by blast
    with False t show ?thesis
      by (subst monitoring_while.simps) (simp add: Let_def)
  qed
qed

lemma join_thread_numeral:
  "join_thread (numeral n) r p =
     (case thread p of
        None \<Rightarrow> p
      | Some c \<Rightarrow> if is_alive c then join_thread (pred_numeral n) r (publish_loop_step r 0 p) else p)"
  by (simp add: numeral_eq_Suc)

lemma monitoring_while_numeral:
  "monitoring_while (numeral n) env i report_interval dur lrt orc =
     (if \<not> running orc then
        Some (stop_orchestrator (stop_envs (env i)) (write_report (env i)) orc)
      else
        (let elapsed = clock orc - start_time orc
         in if dur > 0 \<and> elapsed \<ge> dur then
              Some (stop_orchestrator (stop_envs (env i)) (write_report (env i))
                      (orc\<lparr>log := log orc @ [Log_duration_reached dur]\<rparr>))
            else
              (case monitoring_tick (env i) report_interval lrt orc of
                 (o', lrt') \<Rightarrow> monitoring_while (pred_numeral n) env (Suc i) report_interval dur lrt' o')))"
  by (simp add: numeral_eq_Suc)

subsection \<open>The duration limit\<close>

text \<open>
  Claim C2 as stated fails. One stream, a limit of one time unit, the clock at 100 when
  \<open>start\<close> is called: the publisher is started and the caller sleeps 0.5, so the first
  pass of the monitoring loop begins at elapsed time 0.5, below the limit. The pass
  samples the CPU for one time unit and sleeps one more. The second pass begins at
  elapsed time 2.5 and ends the loop there, 1.5 after the limit; after one pass the loop
  is still running.
\<close>

theorem duration_limit_counterexample:
  "map_sum id (map_option running)
     (start_orchestrator 2 demo_fs demo_env (demo_orchestrator one_stream_one_second))
     = Inr (Some False)
   \<and> map_sum id (map_option clock)
     (start_orchestrator 2 demo_fs demo_env (demo_orchestrator one_stream_one_second))
     = Inr (Some (102.5))
   \<and> map_sum id (map_option start_time)
     (start_orchestrator 2 demo_fs demo_env (demo_orchestrator one_stream_one_second))
     = Inr (Some 100)
   \<and> start_orchestrator 1 demo_fs demo_env (demo_orchestrator one_stream_one_second)
     = Inr None"
  by (simp add: start_orchestrator_def demo_orchestrator_def one_stream_one_second_def
      demo_config_def demo_fs_def demo_env_def demo_stop_env_def demo_write_report_def
      create_publishers_def
      get_video_def get_or_def upto_rec1 video_args_def init_publisher_def str_int_def
      str_nat.simps digit_char_def log_created_total_def start_def monitoring_loop_def
      monitoring_tick_def print_status_report_def check_resource_limits_def
      check_stream_health_def is_healthy_def thread_def is_alive_def stop_orchestrator_def
      stop_publisher_def stop_def terminate_process_def publish_loop_step_def
      generate_final_report_def get_stats_def join_thread_numeral monitoring_while_numeral Let_def)

text \<open>
  Claim C2, amended. With a duration limit \<open>dur > 0\<close> the limit is checked once per pass
  of the monitoring loop, at its start. A pass that starts with the elapsed time at or
  above the limit ends the loop and runs \<open>stop\<close> at once: \<open>running\<close> is false and no time
  has passed. A pass that starts below the limit runs to its end without stopping for the
  limit, and the next pass starts at least 2 time units later (one for the blocking CPU
  sample, one of sleep). The loop does end: \<open>k\<close> passes suffice when \<open>2 * k\<close> exceeds the
  time left to the limit, and then the orchestrator is stopped.
\<close>

theorem duration_limit_checked_per_tick:
  assumes "dur > 0" and "running orc"
  shows
    "(clock orc - start_time orc \<ge> dur \<longrightarrow>
        monitoring_while (Suc k) env i report_interval dur lrt orc
          = Some (stop_orchestrator (stop_envs (env i)) (write_report (env i))
                    (orc\<lparr>log := log orc @ [Log_duration_reached dur]\<rparr>))
        \<and> \<not> running (snd (stop_orchestrator (stop_envs (env i)) (write_report (env i))
                    (orc\<lparr>log := log orc @ [Log_duration_reached dur]\<rparr>)))
        \<and> clock (snd (stop_orchestrator (stop_envs (env i)) (write_report (env i))
                    (orc\<lparr>log := log orc @ [Log_duration_reached dur]\<rparr>))) = clock orc)
     \<and> (clock orc - start_time orc < dur \<longrightarrow>
        monitoring_while (Suc k) env i report_interval dur lrt orc
          = monitoring_while k env (Suc i) report_interval dur
              (snd (monitoring_tick (env i) report_interval lrt orc))
              (fst (monitoring_tick (env i) report_interval lrt orc))
        \<and> clock (fst (monitoring_tick (env i) report_interval lrt orc)) \<ge> clock orc + 2)
     \<and> (dur - (clock orc - start_time orc) < 2 * real k \<longrightarrow>
        (\<exists>res. monitoring_while (Suc k) env i report_interval dur lrt orc = Some res
                \<and> \<not> running (snd res)))
     \<and> (get_or (cfg_load_test (config orc)) lt_duration 0 = dur
          \<and> dur - (clock orc - start_time orc) < 2 * real k \<longrightarrow>
        (\<exists>res. monitoring_loop (Suc k) env orc = Some res \<and> \<not> running (snd res)))"
proof (intro conjI impI)
  assume "clock orc - start_time orc \<ge> dur"
  with assms show "monitoring_while (Suc k) env i report_interval dur lrt orc
          = Some (stop_orchestrator (stop_envs (env i)) (write_report (env i))
                    (orc\<lparr>log := log orc @ [Log_duration_reached dur]\<rparr>))"
    by simp
next
  show "\<not> running (snd (stop_orchestrator (stop_envs (env i)) (write_report (env i))
                    (orc\<lparr>log := log orc @ [Log_duration_reached dur]\<rparr>)))"
    by (rule stop_orchestrator_fields)
next
  show "clock (snd (stop_orchestrator (stop_envs (env i)) (write_report (env i))
                    (orc\<lparr>log := log orc @ [Log_duration_reached dur]\<rparr>))) = clock orc"
    by (simp add: stop_orchestrator_fields)
next
  assume "clock orc - start_time orc < dur"
  with assms show "monitoring_while (Suc k) env i report_interval dur lrt orc
          = monitoring_while k env (Suc i) report_interval dur
              (snd (monitoring_tick (env i) report_interval lrt orc))
              (fst (monitoring_tick (env i) report_interval lrt orc))"
    by (simp add: case_prod_unfold)
next
  show "clock (fst (monitoring_tick (env i) report_interval lrt orc)) \<ge> clock orc + 2"
    by (rule monitoring_tick_clock)
next
  assume "dur - (clock orc - start_time orc) < 2 * real k"
  with assms(1) show "\<exists>res. monitoring_while (Suc k) env i report_interval dur lrt orc = Some res
                \<and> \<not> running (snd res)"
    by (rule monitoring_while_stops)
next
  assume a: "get_or (cfg_load_test (config orc)) lt_duration 0 = dur
          \<and> dur - (clock orc - start_time orc) < 2 * real k"
  then have "\<exists>res. monitoring_while (Suc k) env 0
               (get_or (cfg_load_test (config orc)) lt_report_interval 10) dur (clock orc) orc
               = Some res \<and> \<not> running (snd res)"
    using assms(1) by (intro monitoring_while_stops) simp_all
  with a show "\<exists>res. monitoring_loop (Suc k) env orc = Some res \<and> \<not> running (snd res)"
    by (simp add: monitoring_loop_def Let_def)
qed

theorem duration_limit_checked_per_tick_witness:
  "(0::real) < 1 \<and> running demo_running_orchestrator
   \<and> map_option (map_prod id running)
        (monitoring_while (Suc 1) demo_env 0 10 1 103 demo_running_orchestrator)
       = Some (None, False)
   \<and> map_option (map_prod id clock)
        (monitoring_while (Suc 1) demo_env 0 10 1 103 demo_running_orchestrator)
       = Some (None, 103)"
  using duration_limit_checked_per_tick [of 1 demo_running_orchestrator 1 demo_env 0 10 103]
  by (simp add: demo_running_orchestrator_def demo_orchestrator_def stop_orchestrator_def
      generate_final_report_def demo_env_def demo_write_report_def demo_config_def get_or_def
      Let_def)

subsection \<open>Resource ceilings\<close>

text \<open>What \<open>stop\<close> of a publisher leaves behind, whatever state it is called in.\<close>

lemma terminate_process_threads: "threads (terminate_process tr p) = threads p"
  by (simp add: terminate_process_def split: list.splits term_result.splits)

lemma stop_thread_exited: "thread (stop tr r p) = Some c \<Longrightarrow> c = Exited"
proof -
  assume a: "thread (stop tr r p) = Some c"
  let ?q = "terminate_process tr (p\<lparr>publisher.running := False\<rparr>)"
  have q: "\<not> publisher.running ?q" "threads ?q = threads p"
    by (simp_all add: terminate_process_running terminate_process_threads)
  show ?thesis
  proof (cases "threads p")
    case Nil
    then have "stop tr r p = ?q" using q(2) by (simp add: stop_def join_thread_no_thread)
    with a q(2) Nil show ?thesis by (simp add: thread_def)
  next
    case (Cons c' cs)
    with q have "threads (join_thread 4 r ?q) = Exited # cs"
      by (intro join_thread_exits) simp_all
    with a show ?thesis by (simp add: stop_def thread_def)
  qed
qed

lemma stop_ends_process:
  assumes "tr \<noteq> Term_error" and "thread p \<noteq> Some Launch"
    and "process (stop tr r p) = Some x"
  shows "\<not> alive x"
proof -
  let ?q = "terminate_process tr (p\<lparr>publisher.running := False\<rparr>)"
  have q: "\<not> publisher.running ?q" "threads ?q = threads p"
    "\<forall>x. process ?q = Some x \<longrightarrow> \<not> alive x"
    using terminate_process_result [OF assms(1), of "p\<lparr>publisher.running := False\<rparr>"]
    by simp_all
  have "procs (stop tr r p) = procs ?q"
  proof (cases "threads p")
    case Nil
    then show ?thesis using q(2) by (simp add: stop_def join_thread_no_thread)
  next
    case (Cons c cs)
    with assms(2) have "c \<noteq> Launch" by (simp add: thread_def)
    with q Cons have "publisher.running (join_thread 4 r ?q) = False
        \<and> threads (join_thread 4 r ?q) = Exited # cs
        \<and> procs (join_thread 4 r ?q) = procs ?q"
      by (intro join_thread_stopped) simp_all
    then show ?thesis by (simp add: stop_def)
  qed
  then have "process (stop tr r p) = process ?q" by (simp add: process_def)
  with q(3) assms(3) show ?thesis by simp
qed

lemma stop_publisher_stopped:
  "\<not> publisher.running (stop_publisher senv p)
   \<and> (\<forall>c. thread (stop_publisher senv p) = Some c \<longrightarrow> c = Exited)"
  using stop_thread_exited by (auto simp add: stop_publisher_def stop_not_running)

lemma check_stream_health_nth:
  assumes "i < length (publishers orc)"
  shows "publishers (check_stream_health senv orc) ! i = publishers orc ! i
         \<or> publishers (check_stream_health senv orc) ! i = stop_publisher senv (publishers orc ! i)"
  using assms by (simp add: check_stream_health_def Let_def)

lemma check_resource_limits_memory:
  assumes "running orc"
    and "memory_percent env > get_or (cfg_limits (config orc)) lim_max_memory_percent 80"
  shows "\<not> running (snd (check_resource_limits env orc))"
    and "publishers (snd (check_resource_limits env orc))
           = map (stop_publisher (stop_envs env)) (publishers orc)"
    and "count_list (log (snd (check_resource_limits env orc))) Log_stopping_all
           = count_list (log orc) Log_stopping_all + 1"
  using assms
  by (simp_all add: check_resource_limits_def Let_def case_prod_unfold stop_orchestrator_fields
      stop_orchestrator_publishers stop_orchestrator_log split: option.splits)

lemma check_resource_limits_cpu_only:
  assumes "\<not> memory_percent env > get_or (cfg_limits (config orc)) lim_max_memory_percent 80"
    and "cpu_percent env > get_or (cfg_limits (config orc)) lim_max_cpu_percent 90"
  shows "check_resource_limits env orc =
         (None, orc\<lparr>clock := clock orc + 1,
             log := log orc @ [Log_cpu_exceeded (cpu_percent env)
                     (get_or (cfg_limits (config orc)) lim_max_cpu_percent 90)]\<rparr>)"
  using assms by (simp add: check_resource_limits_def Let_def)

text \<open>
  The pass after the resource check: the health audit and the sleep when the check
  returned, the logged exception and the longer sleep when it raised.
\<close>

lemma monitoring_tick_after_check:
  "fst (monitoring_tick env report_interval lrt orc) =
     (let o1 = (if clock orc - lrt \<ge> report_interval then print_status_report env orc else orc);
          o2 = snd (check_resource_limits env o1)
      in case fst (check_resource_limits env o1) of
           Some e \<Rightarrow> o2\<lparr>clock := clock o2 + 5, log := log o2 @ [Log_monitoring_error e]\<rparr>
         | None \<Rightarrow> (check_stream_health (stop_envs env) o2)
                      \<lparr>clock := clock (check_stream_health (stop_envs env) o2) + 1\<rparr>)"
  by (simp add: monitoring_tick_def Let_def case_prod_unfold split: option.splits)

lemma monitoring_tick_memory:
  assumes "running orc"
    and "memory_percent env > get_or (cfg_limits (config orc)) lim_max_memory_percent 80"
  shows "\<not> running (fst (monitoring_tick env report_interval lrt orc))"
    and "length (publishers (fst (monitoring_tick env report_interval lrt orc)))
           = length (publishers orc)"
    and "\<forall>i < length (publishers orc).
           publishers (fst (monitoring_tick env report_interval lrt orc)) ! i
             = stop_publisher (stop_envs env) (publishers orc ! i)
         \<or> publishers (fst (monitoring_tick env report_interval lrt orc)) ! i
             = stop_publisher (stop_envs env) (stop_publisher (stop_envs env) (publishers orc ! i))"
    and "count_list (log (fst (monitoring_tick env report_interval lrt orc))) Log_stopping_all
           = count_list (log orc) Log_stopping_all + 1"
proof -
  define o1 where "o1 = (if clock orc - lrt \<ge> report_interval then print_status_report env orc else orc)"
  define o2 where "o2 = snd (check_resource_limits env o1)"
  define h where "h = check_stream_health (stop_envs env) o2"
  define res where "res = fst (check_resource_limits env o1)"
  have o1: "running o1" "config o1 = config orc" "publishers o1 = publishers orc"
    "count_list (log o1) Log_stopping_all = count_list (log orc) Log_stopping_all"
    using assms(1) by (simp_all add: o1_def print_status_report_fields)
  have m1: "memory_percent env > get_or (cfg_limits (config o1)) lim_max_memory_percent 80"
    using assms(2) o1(2) by simp
  have c: "\<not> running o2"
    "publishers o2 = map (stop_publisher (stop_envs env)) (publishers orc)"
    "count_list (log o2) Log_stopping_all = count_list (log orc) Log_stopping_all + 1"
    using check_resource_limits_memory [OF o1(1) m1] o1(3,4) by (simp_all add: o2_def)
  have t: "fst (monitoring_tick env report_interval lrt orc) =
      (case res of
           Some e \<Rightarrow> o2\<lparr>clock := clock o2 + 5, log := log o2 @ [Log_monitoring_error e]\<rparr>
         | None \<Rightarrow> h\<lparr>clock := clock h + 1\<rparr>)"
    unfolding res_def h_def o2_def o1_def by (simp only: monitoring_tick_after_check Let_def)
  have hf: "running h = running o2" "length (publishers h) = length (publishers o2)"
    "count_list (log h) Log_stopping_all = count_list (log o2) Log_stopping_all"
    by (simp_all add: h_def check_stream_health_fields check_stream_health_log)
  show "\<not> running (fst (monitoring_tick env report_interval lrt orc))"
    unfolding t using c(1) hf by (cases res) simp_all
  show "length (publishers (fst (monitoring_tick env report_interval lrt orc)))
           = length (publishers orc)"
    unfolding t using c(2) hf by (cases res) simp_all
  show "count_list (log (fst (monitoring_tick env report_interval lrt orc))) Log_stopping_all
           = count_list (log orc) Log_stopping_all + 1"
    unfolding t using c(3) hf by (cases res) simp_all
  show "\<forall>i < length (publishers orc).
           publishers (fst (monitoring_tick env report_interval lrt orc)) ! i
             = stop_publisher (stop_envs env) (publishers orc ! i)
         \<or> publishers (fst (monitoring_tick env report_interval lrt orc)) ! i
             = stop_publisher (stop_envs env) (stop_publisher (stop_envs env) (publishers orc ! i))"
  proof (intro allI impI)
    fix i assume i: "i < length (publishers orc)"
    then have i2: "i < length (publishers o2)" using c(2) by simp
    have n: "publishers o2 ! i = stop_publisher (stop_envs env) (publishers orc ! i)"
      using i c(2) by simp
    have "publishers h ! i = publishers o2 ! i
         \<or> publishers h ! i = stop_publisher (stop_envs env) (publishers o2 ! i)"
      unfolding h_def by (rule check_stream_health_nth [OF i2])
    then show "publishers (fst (monitoring_tick env report_interval lrt orc)) ! i
             = stop_publisher (stop_envs env) (publishers orc ! i)
         \<or> publishers (fst (monitoring_tick env report_interval lrt orc)) ! i
             = stop_publisher (stop_envs env) (stop_publisher (stop_envs env) (publishers orc ! i))"
      unfolding t using n by (cases res) auto
  qed
qed

text \<open>
  Claim C3. In a pass of the monitoring loop of a running orchestrator, a memory sample
  above the ceiling makes \<open>check_resource_limits\<close> run \<open>stop\<close>: the orchestrator is
  not running, the publishers are the old ones with \<open>stop\<close> applied to each, in order,
  so that none is running and the newest supervision thread of each has exited, and the
  log has gained the line of \<open>stop\<close> exactly once. A publisher whose termination
  request does not fail and whose thread is not between its check of \<open>running\<close> and its
  launch has no live current process afterwards. After the whole pass the orchestrator
  is not running, each publisher has been stopped once or (by the health audit) twice,
  and the line of \<open>stop\<close> has still been logged once. A CPU sample above its
  ceiling, the memory sample being within its own, adds the warning to the log and the
  sampling second to the clock, raises nothing and changes nothing else.
\<close>

theorem resource_limits_hard_and_soft:
  "(running orc \<and> memory_percent env > get_or (cfg_limits (config orc)) lim_max_memory_percent 80 \<longrightarrow>
      \<not> running (snd (check_resource_limits env orc))
      \<and> publishers (snd (check_resource_limits env orc))
          = map (\<lambda>p. stop (term_res (stop_envs env (stream_name p)))
                        (popen_res (stop_envs env (stream_name p))) p)
              (publishers orc)
      \<and> length (publishers (snd (check_resource_limits env orc))) = length (publishers orc)
      \<and> (\<forall>p \<in> set (publishers (snd (check_resource_limits env orc))).
            \<not> publisher.running p \<and> (\<forall>c. thread p = Some c \<longrightarrow> c = Exited))
      \<and> (\<forall>p \<in> set (publishers orc).
            term_res (stop_envs env (stream_name p)) \<noteq> Term_error \<and> thread p \<noteq> Some Launch \<longrightarrow>
            (\<forall>x. process (stop (term_res (stop_envs env (stream_name p)))
                            (popen_res (stop_envs env (stream_name p))) p) = Some x
                  \<longrightarrow> \<not> alive x))
      \<and> count_list (log (snd (check_resource_limits env orc))) Log_stopping_all
           = count_list (log orc) Log_stopping_all + 1
      \<and> \<not> running (fst (monitoring_tick env report_interval last_report_time orc))
      \<and> length (publishers (fst (monitoring_tick env report_interval last_report_time orc)))
           = length (publishers orc)
      \<and> (\<forall>i < length (publishers orc).
            publishers (fst (monitoring_tick env report_interval last_report_time orc)) ! i
              = stop_publisher (stop_envs env) (publishers orc ! i)
          \<or> publishers (fst (monitoring_tick env report_interval last_report_time orc)) ! i
              = stop_publisher (stop_envs env)
                 (stop_publisher (stop_envs env) (publishers orc ! i)))
      \<and> (\<forall>p \<in> set (publishers (fst (monitoring_tick env report_interval last_report_time orc))).
            \<not> publisher.running p \<and> (\<forall>c. thread p = Some c \<longrightarrow> c = Exited))
      \<and> count_list (log (fst (monitoring_tick env report_interval last_report_time orc))) Log_stopping_all
           = count_list (log orc) Log_stopping_all + 1)
   \<and> (\<not> memory_percent env > get_or (cfg_limits (config orc)) lim_max_memory_percent 80
      \<and> cpu_percent env > get_or (cfg_limits (config orc)) lim_max_cpu_percent 90 \<longrightarrow>
      check_resource_limits env orc =
         (None, orc\<lparr>clock := clock orc + 1,
             log := log orc @ [Log_cpu_exceeded (cpu_percent env)
                     (get_or (cfg_limits (config orc)) lim_max_cpu_percent 90)]\<rparr>))"
proof (intro conjI impI)
  assume a: "running orc \<and> memory_percent env > get_or (cfg_limits (config orc)) lim_max_memory_percent 80"
  then have r: "running orc"
    and m: "memory_percent env > get_or (cfg_limits (config orc)) lim_max_memory_percent 80"
    by simp_all
  note c = check_resource_limits_memory [OF r m]
  note t = monitoring_tick_memory [OF r m, of report_interval last_report_time]
  show "\<not> running (snd (check_resource_limits env orc))" by (rule c)
  show "publishers (snd (check_resource_limits env orc))
          = map (\<lambda>p. stop (term_res (stop_envs env (stream_name p)))
                        (popen_res (stop_envs env (stream_name p))) p)
              (publishers orc)"
    unfolding c(2) by (simp add: stop_publisher_def)
  show "length (publishers (snd (check_resource_limits env orc))) = length (publishers orc)"
    by (rule check_resource_limits_fields)
  show "\<forall>p \<in> set (publishers (snd (check_resource_limits env orc))).
            \<not> publisher.running p \<and> (\<forall>c. thread p = Some c \<longrightarrow> c = Exited)"
    unfolding c(2) using stop_publisher_stopped by auto
  show "\<forall>p \<in> set (publishers orc).
            term_res (stop_envs env (stream_name p)) \<noteq> Term_error \<and> thread p \<noteq> Some Launch \<longrightarrow>
            (\<forall>x. process (stop (term_res (stop_envs env (stream_name p)))
                            (popen_res (stop_envs env (stream_name p))) p) = Some x
                  \<longrightarrow> \<not> alive x)"
    using stop_ends_process by blast
  show "count_list (log (snd (check_resource_limits env orc))) Log_stopping_all
           = count_list (log orc) Log_stopping_all + 1"
    by (rule c)
  show "\<not> running (fst (monitoring_tick env report_interval last_report_time orc))"
    by (rule t)
  show "length (publishers (fst (monitoring_tick env report_interval last_report_time orc)))
           = length (publishers orc)"
    by (rule t)
  show n: "\<forall>i < length (publishers orc).
            publishers (fst (monitoring_tick env report_interval last_report_time orc)) ! i
              = stop_publisher (stop_envs env) (publishers orc ! i)
          \<or> publishers (fst (monitoring_tick env report_interval last_report_time orc)) ! i
              = stop_publisher (stop_envs env)
                 (stop_publisher (stop_envs env) (publishers orc ! i))"
    by (rule t)
  show "\<forall>p \<in> set (publishers (fst (monitoring_tick env report_interval last_report_time orc))).
            \<not> publisher.running p \<and> (\<forall>c. thread p = Some c \<longrightarrow> c = Exited)"
  proof
    fix p
    assume "p \<in> set (publishers (fst (monitoring_tick env report_interval last_report_time orc)))"
    then obtain i where "i < length (publishers orc)"
      and "p = publishers (fst (monitoring_tick env report_interval last_report_time orc)) ! i"
      using t(2) by (metis in_set_conv_nth)
    with n have "p = stop_publisher (stop_envs env) (publishers orc ! i)
        \<or> p = stop_publisher (stop_envs env) (stop_publisher (stop_envs env) (publishers orc ! i))"
      by simp
    then show "\<not> publisher.running p \<and> (\<forall>c. thread p = Some c \<longrightarrow> c = Exited)"
      using stop_publisher_stopped by blast
  qed
  show "count_list (log (fst (monitoring_tick env report_interval last_report_time orc))) Log_stopping_all
           = count_list (log orc) Log_stopping_all + 1"
    by (rule t)
next
  assume "\<not> memory_percent env > get_or (cfg_limits (config orc)) lim_max_memory_percent 80
      \<and> cpu_percent env > get_or (cfg_limits (config orc)) lim_max_cpu_percent 90"
  then show "check_resource_limits env orc =
         (None, orc\<lparr>clock := clock orc + 1,
             log := log orc @ [Log_cpu_exceeded (cpu_percent env)
                     (get_or (cfg_limits (config orc)) lim_max_cpu_percent 90)]\<rparr>)"
    by (intro check_resource_limits_cpu_only) simp_all
qed

theorem resource_limits_hard_and_soft_witness:
  "running demo_running_orchestrator
   \<and> memory_percent ((demo_env 0)\<lparr>memory_percent := 85\<rparr>)
        > get_or (cfg_limits (config demo_running_orchestrator)) lim_max_memory_percent 80
   \<and> \<not> running (snd (check_resource_limits ((demo_env 0)\<lparr>memory_percent := 85\<rparr>)
           demo_running_orchestrator))
   \<and> map publisher.running
        (publishers (snd (check_resource_limits ((demo_env 0)\<lparr>memory_percent := 85\<rparr>)
           demo_running_orchestrator))) = [False, False]
   \<and> map thread
        (publishers (snd (check_resource_limits ((demo_env 0)\<lparr>memory_percent := 85\<rparr>)
           demo_running_orchestrator))) = [Some Exited, Some Exited]
   \<and> map live_processes
        (publishers (snd (check_resource_limits ((demo_env 0)\<lparr>memory_percent := 85\<rparr>)
           demo_running_orchestrator))) = [0, 0]
   \<and> count_list (log (snd (check_resource_limits ((demo_env 0)\<lparr>memory_percent := 85\<rparr>)
           demo_running_orchestrator))) Log_stopping_all = 1
   \<and> \<not> memory_percent ((demo_env 0)\<lparr>cpu_percent := 95\<rparr>)
        > get_or (cfg_limits (config demo_running_orchestrator)) lim_max_memory_percent 80
   \<and> cpu_percent ((demo_env 0)\<lparr>cpu_percent := 95\<rparr>)
        > get_or (cfg_limits (config demo_running_orchestrator)) lim_max_cpu_percent 90
   \<and> check_resource_limits ((demo_env 0)\<lparr>cpu_percent := 95\<rparr>) demo_running_orchestrator
       = (None, demo_running_orchestrator\<lparr>clock := 104, log := [Log_cpu_exceeded 95 90]\<rparr>)"
proof -
  have r: "running demo_running_orchestrator"
    and l: "log demo_running_orchestrator = []" "clock demo_running_orchestrator = 103"
    by (simp_all add: demo_running_orchestrator_def demo_orchestrator_def)
  have m: "get_or (cfg_limits (config demo_running_orchestrator)) lim_max_memory_percent 80 = 80"
    and c: "get_or (cfg_limits (config demo_running_orchestrator)) lim_max_cpu_percent 90 = 90"
    by (simp_all add: demo_running_orchestrator_def demo_orchestrator_def demo_config_def get_or_def)
  have e: "memory_percent ((demo_env 0)\<lparr>memory_percent := 85\<rparr>) = 85"
    "memory_percent ((demo_env 0)\<lparr>cpu_percent := 95\<rparr>) = 50"
    "cpu_percent ((demo_env 0)\<lparr>cpu_percent := 95\<rparr>) = 95"
    by (simp_all add: demo_env_def)
  have h: "running demo_running_orchestrator
      \<and> memory_percent ((demo_env 0)\<lparr>memory_percent := 85\<rparr>)
        > get_or (cfg_limits (config demo_running_orchestrator)) lim_max_memory_percent 80"
    using r m e by simp
  have s: "\<not> memory_percent ((demo_env 0)\<lparr>cpu_percent := 95\<rparr>)
        > get_or (cfg_limits (config demo_running_orchestrator)) lim_max_memory_percent 80
      \<and> cpu_percent ((demo_env 0)\<lparr>cpu_percent := 95\<rparr>)
        > get_or (cfg_limits (config demo_running_orchestrator)) lim_max_cpu_percent 90"
    using m c e by simp
  have p: "publishers (snd (check_resource_limits ((demo_env 0)\<lparr>memory_percent := 85\<rparr>)
           demo_running_orchestrator))
        = map (\<lambda>p. stop Term_exited Spawned p) (publishers demo_running_orchestrator)"
    using resource_limits_hard_and_soft [of demo_running_orchestrator
      "(demo_env 0)\<lparr>memory_percent := 85\<rparr>" 10 103] h
    by (simp add: demo_env_def demo_stop_env_def)
  have v: "map publisher.running
             (map (\<lambda>p. stop Term_exited Spawned p) (publishers demo_running_orchestrator))
             = [False, False]
      \<and> map thread
             (map (\<lambda>p. stop Term_exited Spawned p) (publishers demo_running_orchestrator))
             = [Some Exited, Some Exited]
      \<and> map live_processes
             (map (\<lambda>p. stop Term_exited Spawned p) (publishers demo_running_orchestrator))
             = [0, 0]"
    by (simp add: demo_running_orchestrator_def demo_orchestrator_def
        demo_failing_publisher_def demo_publisher_def stop_def terminate_process_def start_def
        publish_loop_step_def thread_def process_def is_alive_def live_processes_def
        join_thread_numeral Let_def)
  have n: "\<not> running (snd (check_resource_limits ((demo_env 0)\<lparr>memory_percent := 85\<rparr>)
           demo_running_orchestrator))
      \<and> count_list (log (snd (check_resource_limits ((demo_env 0)\<lparr>memory_percent := 85\<rparr>)
           demo_running_orchestrator))) Log_stopping_all = 1"
    using resource_limits_hard_and_soft [of demo_running_orchestrator
      "(demo_env 0)\<lparr>memory_percent := 85\<rparr>" 10 103] h l
    by simp
  have u: "check_resource_limits ((demo_env 0)\<lparr>cpu_percent := 95\<rparr>) demo_running_orchestrator
       = (None, demo_running_orchestrator\<lparr>clock := 104, log := [Log_cpu_exceeded 95 90]\<rparr>)"
    using resource_limits_hard_and_soft [of demo_running_orchestrator
      "(demo_env 0)\<lparr>cpu_percent := 95\<rparr>" 10 103] s l c e
    by simp
  from h s n u v show ?thesis unfolding p by (intro conjI) simp_all
qed

subsection \<open>The health audit\<close>

lemma unhealthy_if_many_errors: "error_count p \<ge> 10 \<Longrightarrow> \<not> is_healthy p"
  by (simp add: is_healthy_def)

text \<open>
  Claim C4. The health audit stops every publisher whose error count has reached 10, so
  that its \<open>running\<close> is false; a publisher with fewer errors is left exactly as it
  was, and so is the orchestrator's own \<open>running\<close>.
\<close>

theorem check_stream_health_quarantine:
  "running (check_stream_health senv orc) = running orc
   \<and> length (publishers (check_stream_health senv orc)) = length (publishers orc)
   \<and> (\<forall>i < length (publishers orc).
         (error_count (publishers orc ! i) \<ge> 10 \<longrightarrow>
            \<not> publisher.running (publishers (check_stream_health senv orc) ! i))
       \<and> (error_count (publishers orc ! i) < 10 \<longrightarrow>
            publishers (check_stream_health senv orc) ! i = publishers orc ! i))"
proof (cases "filter (\<lambda>p. \<not> is_healthy p) (publishers orc) = []")
  case True
  then have h: "\<forall>p \<in> set (publishers orc). is_healthy p"
    by (simp add: filter_empty_conv)
  have "check_stream_health senv orc = orc"
    using True by (simp add: check_stream_health_def)
  moreover have "\<forall>i < length (publishers orc). error_count (publishers orc ! i) < 10"
    using h by (auto simp: is_healthy_def)
  ultimately show ?thesis by auto
next
  case False
  then show ?thesis
    by (auto simp add: check_stream_health_def Let_def stop_publisher_not_running
        unhealthy_if_many_errors)
qed

theorem check_stream_health_quarantine_witness:
  "error_count (publishers demo_running_orchestrator ! 1) \<ge> 10
   \<and> error_count (publishers demo_running_orchestrator ! 0) < 10
   \<and> \<not> publisher.running (publishers (check_stream_health demo_stop_env demo_running_orchestrator) ! 1)
   \<and> publishers (check_stream_health demo_stop_env demo_running_orchestrator) ! 0
       = publishers demo_running_orchestrator ! 0
   \<and> publisher.running (publishers (check_stream_health demo_stop_env demo_running_orchestrator) ! 0)
   \<and> running (check_stream_health demo_stop_env demo_running_orchestrator)"
  using check_stream_health_quarantine [of demo_stop_env demo_running_orchestrator]
  by (simp add: demo_running_orchestrator_def demo_orchestrator_def demo_failing_publisher_def
      demo_publisher_def start_def publish_loop_step_def check_stream_health_def is_healthy_def
      thread_def is_alive_def stop_publisher_not_running Let_def)

subsection \<open>Validation and publisher creation\<close>

lemma str_int_digits: "str_int 1 = ''1''" "str_int 2 = ''2''" "str_int 3 = ''3''"
  by (simp_all add: str_int_def str_nat.simps digit_char_def)


text \<open>
  Claim C8 as stated fails. The configuration \<open>lower_case_log_level\<close> has a video
  section, a server section and 3 streams against a maximum of 50, so validation accepts
  it; its log level is \<^verbatim>\<open>info\<close>, which is not the name of a level of the logger, and
  construction raises ValueError while setting up logging, before validation runs.
\<close>

theorem construction_fails_on_log_level:
  "cfg_video lower_case_log_level
     = Some \<lparr>vid_path = Some ''videos/test.mp4'', vid_loop = None, vid_fps = None,
              vid_other_keys = []\<rparr>
   \<and> cfg_rtsp_server lower_case_log_level
     = Some \<lparr>srv_base_url = Some ''rtsp://localhost:8554'', srv_other_keys = []\<rparr>
   \<and> get_or (cfg_load_test lower_case_log_level) lt_concurrent_streams 1 = 3
   \<and> get_or (cfg_limits lower_case_log_level) lim_max_streams 50 = 50
   \<and> validate_config lower_case_log_level = Inr ()
   \<and> init_orchestrator demo_init_env 100 lower_case_log_level
     = Inl (ValueError ''Level 'info' does not exist'')"
  by (simp add: lower_case_log_level_def demo_config_def demo_init_env_def get_or_def
      validate_config_def get_video_def get_video_sources_def get_rtsp_server_def
      init_orchestrator_def setup_logging_def loguru_levels_def)

lemma no_video_source_iff:
  "(get_video_sources c = None \<and> get_video c = None) \<longleftrightarrow>
     (cfg_video_sources c = None \<or> cfg_video_sources c = Some [])
     \<and> (cfg_video c = None
        \<or> cfg_video c = Some \<lparr>vid_path = None, vid_loop = None, vid_fps = None,
                                vid_other_keys = []\<rparr>)"
  by (auto simp add: get_video_sources_def get_video_def split: option.splits if_splits)

lemma no_rtsp_server_iff:
  "get_rtsp_server c = None \<longleftrightarrow>
     cfg_rtsp_server c = None
     \<or> cfg_rtsp_server c = Some \<lparr>srv_base_url = None, srv_other_keys = []\<rparr>"
  by (auto simp add: get_rtsp_server_def split: option.splits if_splits)

lemma validate_config_cases:
  "validate_config c =
     (if (cfg_video_sources c = None \<or> cfg_video_sources c = Some [])
         \<and> (cfg_video c = None
            \<or> cfg_video c = Some \<lparr>vid_path = None, vid_loop = None, vid_fps = None,
                                    vid_other_keys = []\<rparr>)
      then Inl (ValueError ''No video source configured (use 'video' section)'')
      else if cfg_rtsp_server c = None
            \<or> cfg_rtsp_server c = Some \<lparr>srv_base_url = None, srv_other_keys = []\<rparr>
      then Inl (ValueError ''RTSP server configuration missing'')
      else if get_or (cfg_load_test c) lt_concurrent_streams 1
                > get_or (cfg_limits c) lim_max_streams 50
      then Inl (ValueError (''Concurrent streams (''
                  @ str_int (get_or (cfg_load_test c) lt_concurrent_streams 1)
                  @ '') exceeds max limit (''
                  @ str_int (get_or (cfg_limits c) lim_max_streams 50) @ '')''))
      else Inr ())"
  unfolding validate_config_def no_video_source_iff no_rtsp_server_iff by (simp add: Let_def)

lemma setup_logging_none_iff:
  "setup_logging ienv c = None \<longleftrightarrow>
     mkdir_error ienv = None
     \<and> get_or (cfg_monitoring c) mon_log_level ''INFO'' \<in> set loguru_levels
     \<and> sink_error ienv = None"
  by (simp add: setup_logging_def Let_def split: option.splits)

text \<open>
  Claim C8, amended. Construction raises exactly when registering the signal handlers
  fails, or setting up logging fails (the log directory cannot be made, the log level,
  INFO when not configured, is not the name of a level of the logger, or the log file
  cannot be opened), or the configuration has neither a non-empty \<^verbatim>\<open>video_sources\<close>
  list nor a non-empty \<^verbatim>\<open>video\<close> section, or has no non-empty \<^verbatim>\<open>rtsp_server\<close>
  section, or the concurrent-stream count (1 when not configured) exceeds the maximum
  (50 when not configured). Otherwise the orchestrator is created, with no publisher
  and not running. The steps fail in this order: an error of the signal registration is
  the one raised; with the handlers registered and the directory made, an unknown level
  raises ValueError naming it; with logging set up, the error is the one validation
  raises, the missing video source being reported before the missing server section.
\<close>

theorem init_orchestrator_error_iff:
  "((\<exists>e. init_orchestrator ienv now c = Inl e) \<longleftrightarrow>
      signal_error ienv \<noteq> None \<or> mkdir_error ienv \<noteq> None
      \<or> get_or (cfg_monitoring c) mon_log_level ''INFO'' \<notin> set loguru_levels
      \<or> sink_error ienv \<noteq> None
      \<or> ((cfg_video_sources c = None \<or> cfg_video_sources c = Some [])
          \<and> (cfg_video c = None
             \<or> cfg_video c = Some \<lparr>vid_path = None, vid_loop = None, vid_fps = None,
                                     vid_other_keys = []\<rparr>))
      \<or> cfg_rtsp_server c = None
      \<or> cfg_rtsp_server c = Some \<lparr>srv_base_url = None, srv_other_keys = []\<rparr>
      \<or> get_or (cfg_load_test c) lt_concurrent_streams 1 > get_or (cfg_limits c) lim_max_streams 50)
   \<and> (init_orchestrator ienv now c
        = Inr \<lparr>config = c, publishers = [], running = False, start_time = 0, clock = now, log = []\<rparr>
      \<or> (\<exists>e. init_orchestrator ienv now c = Inl e))
   \<and> (\<forall>e. signal_error ienv = Some e \<longrightarrow> init_orchestrator ienv now c = Inl e)
   \<and> (signal_error ienv = None \<and> mkdir_error ienv = None
        \<and> get_or (cfg_monitoring c) mon_log_level ''INFO'' \<notin> set loguru_levels \<longrightarrow>
        init_orchestrator ienv now c
          = Inl (ValueError (''Level '' @ [CHR 0x27]
                   @ get_or (cfg_monitoring c) mon_log_level ''INFO'' @ [CHR 0x27]
                   @ '' does not exist'')))
   \<and> (signal_error ienv = None \<and> setup_logging ienv c = None \<longrightarrow>
        (\<forall>e. init_orchestrator ienv now c = Inl e \<longleftrightarrow> validate_config c = Inl e)
        \<and> ((cfg_video_sources c = None \<or> cfg_video_sources c = Some [])
            \<and> (cfg_video c = None
               \<or> cfg_video c = Some \<lparr>vid_path = None, vid_loop = None, vid_fps = None,
                                       vid_other_keys = []\<rparr>) \<longrightarrow>
            init_orchestrator ienv now c
              = Inl (ValueError ''No video source configured (use 'video' section)''))
        \<and> (get_video_sources c \<noteq> None \<or> get_video c \<noteq> None \<longrightarrow>
            cfg_rtsp_server c = None
            \<or> cfg_rtsp_server c = Some \<lparr>srv_base_url = None, srv_other_keys = []\<rparr> \<longrightarrow>
            init_orchestrator ienv now c = Inl (ValueError ''RTSP server configuration missing'')))"
proof -
  let ?orc = "\<lparr>config = c, publishers = [], running = False, start_time = 0, clock = now, log = []\<rparr>"
  have i: "init_orchestrator ienv now c =
      (case signal_error ienv of
         Some e \<Rightarrow> Inl e
       | None \<Rightarrow> (case setup_logging ienv c of
           Some e \<Rightarrow> Inl e
         | None \<Rightarrow> (case validate_config c of Inl e \<Rightarrow> Inl e | Inr u \<Rightarrow> Inr ?orc)))"
    by (simp add: init_orchestrator_def)
  have v: "(\<exists>e. validate_config c = Inl e) \<longleftrightarrow>
      ((cfg_video_sources c = None \<or> cfg_video_sources c = Some [])
          \<and> (cfg_video c = None
             \<or> cfg_video c = Some \<lparr>vid_path = None, vid_loop = None, vid_fps = None,
                                     vid_other_keys = []\<rparr>))
      \<or> cfg_rtsp_server c = None
      \<or> cfg_rtsp_server c = Some \<lparr>srv_base_url = None, srv_other_keys = []\<rparr>
      \<or> get_or (cfg_load_test c) lt_concurrent_streams 1 > get_or (cfg_limits c) lim_max_streams 50"
    unfolding validate_config_cases by auto
  have s: "(\<exists>e. setup_logging ienv c = Some e) \<longleftrightarrow>
      mkdir_error ienv \<noteq> None
      \<or> get_or (cfg_monitoring c) mon_log_level ''INFO'' \<notin> set loguru_levels
      \<or> sink_error ienv \<noteq> None"
    using setup_logging_none_iff [of ienv c] by auto
  have e: "(\<exists>e. init_orchestrator ienv now c = Inl e) \<longleftrightarrow>
      signal_error ienv \<noteq> None \<or> (\<exists>e. setup_logging ienv c = Some e)
      \<or> (\<exists>e. validate_config c = Inl e)"
    unfolding i by (auto split: option.splits sum.splits)
  have c1: "(\<exists>e. init_orchestrator ienv now c = Inl e) \<longleftrightarrow>
      signal_error ienv \<noteq> None \<or> mkdir_error ienv \<noteq> None
      \<or> get_or (cfg_monitoring c) mon_log_level ''INFO'' \<notin> set loguru_levels
      \<or> sink_error ienv \<noteq> None
      \<or> ((cfg_video_sources c = None \<or> cfg_video_sources c = Some [])
          \<and> (cfg_video c = None
             \<or> cfg_video c = Some \<lparr>vid_path = None, vid_loop = None, vid_fps = None,
                                     vid_other_keys = []\<rparr>))
      \<or> cfg_rtsp_server c = None
      \<or> cfg_rtsp_server c = Some \<lparr>srv_base_url = None, srv_other_keys = []\<rparr>
      \<or> get_or (cfg_load_test c) lt_concurrent_streams 1 > get_or (cfg_limits c) lim_max_streams 50"
    unfolding e s v by blast
  have c2: "init_orchestrator ienv now c = Inr ?orc \<or> (\<exists>e. init_orchestrator ienv now c = Inl e)"
    unfolding i by (auto split: option.splits sum.splits)
  have c3: "\<forall>e. signal_error ienv = Some e \<longrightarrow> init_orchestrator ienv now c = Inl e"
    unfolding i by simp
  have c4: "signal_error ienv = None \<and> mkdir_error ienv = None
        \<and> get_or (cfg_monitoring c) mon_log_level ''INFO'' \<notin> set loguru_levels \<longrightarrow>
        init_orchestrator ienv now c
          = Inl (ValueError (''Level '' @ [CHR 0x27]
                   @ get_or (cfg_monitoring c) mon_log_level ''INFO'' @ [CHR 0x27]
                   @ '' does not exist''))"
    unfolding i by (simp add: setup_logging_def Let_def)
  have c5: "signal_error ienv = None \<and> setup_logging ienv c = None \<longrightarrow>
        (\<forall>e. init_orchestrator ienv now c = Inl e \<longleftrightarrow> validate_config c = Inl e)
        \<and> ((cfg_video_sources c = None \<or> cfg_video_sources c = Some [])
            \<and> (cfg_video c = None
               \<or> cfg_video c = Some \<lparr>vid_path = None, vid_loop = None, vid_fps = None,
                                       vid_other_keys = []\<rparr>) \<longrightarrow>
            init_orchestrator ienv now c
              = Inl (ValueError ''No video source configured (use 'video' section)''))
        \<and> (get_video_sources c \<noteq> None \<or> get_video c \<noteq> None \<longrightarrow>
            cfg_rtsp_server c = None
            \<or> cfg_rtsp_server c = Some \<lparr>srv_base_url = None, srv_other_keys = []\<rparr> \<longrightarrow>
            init_orchestrator ienv now c = Inl (ValueError ''RTSP server configuration missing''))"
  proof (intro impI)
    assume a: "signal_error ienv = None \<and> setup_logging ienv c = None"
    then have j: "init_orchestrator ienv now c =
        (case validate_config c of Inl e \<Rightarrow> Inl e | Inr u \<Rightarrow> Inr ?orc)"
      unfolding i by simp
    show "(\<forall>e. init_orchestrator ienv now c = Inl e \<longleftrightarrow> validate_config c = Inl e)
        \<and> ((cfg_video_sources c = None \<or> cfg_video_sources c = Some [])
            \<and> (cfg_video c = None
               \<or> cfg_video c = Some \<lparr>vid_path = None, vid_loop = None, vid_fps = None,
                                       vid_other_keys = []\<rparr>) \<longrightarrow>
            init_orchestrator ienv now c
              = Inl (ValueError ''No video source configured (use 'video' section)''))
        \<and> (get_video_sources c \<noteq> None \<or> get_video c \<noteq> None \<longrightarrow>
            cfg_rtsp_server c = None
            \<or> cfg_rtsp_server c = Some \<lparr>srv_base_url = None, srv_other_keys = []\<rparr> \<longrightarrow>
            init_orchestrator ienv now c = Inl (ValueError ''RTSP server configuration missing''))"
    proof (intro conjI allI impI)
      fix e show "init_orchestrator ienv now c = Inl e \<longleftrightarrow> validate_config c = Inl e"
        unfolding j by (simp split: sum.splits)
    next
      assume "(cfg_video_sources c = None \<or> cfg_video_sources c = Some [])
            \<and> (cfg_video c = None
               \<or> cfg_video c = Some \<lparr>vid_path = None, vid_loop = None, vid_fps = None,
                                       vid_other_keys = []\<rparr>)"
      then show "init_orchestrator ienv now c
              = Inl (ValueError ''No video source configured (use 'video' section)'')"
        unfolding j validate_config_cases by simp
    next
      assume "get_video_sources c \<noteq> None \<or> get_video c \<noteq> None"
        and "cfg_rtsp_server c = None
            \<or> cfg_rtsp_server c = Some \<lparr>srv_base_url = None, srv_other_keys = []\<rparr>"
      then show "init_orchestrator ienv now c = Inl (ValueError ''RTSP server configuration missing'')"
        unfolding j validate_config_def no_rtsp_server_iff [symmetric] by auto
    qed
  qed
  from c1 c2 c3 c4 c5 show ?thesis by (intro conjI)
qed

theorem init_orchestrator_error_iff_witness:
  "init_orchestrator demo_init_env 100 (demo_config\<lparr>cfg_video := None\<rparr>)
     = Inl (ValueError ''No video source configured (use 'video' section)'')
   \<and> init_orchestrator demo_init_env 100 (demo_config\<lparr>cfg_rtsp_server := None\<rparr>)
     = Inl (ValueError ''RTSP server configuration missing'')
   \<and> init_orchestrator demo_init_env 100
       (demo_config\<lparr>cfg_load_test := Some \<lparr>lt_concurrent_streams = Some 51,
            lt_report_interval = None, lt_duration = None\<rparr>\<rparr>)
     = Inl (ValueError ''Concurrent streams (51) exceeds max limit (50)'')
   \<and> init_orchestrator demo_init_env 100 lower_case_log_level
     = Inl (ValueError ''Level 'info' does not exist'')
   \<and> init_orchestrator (demo_init_env\<lparr>signal_error :=
         Some (ValueError ''signal only works in main thread of the main interpreter'')\<rparr>)
       100 demo_config
     = Inl (ValueError ''signal only works in main thread of the main interpreter'')
   \<and> init_orchestrator demo_init_env 100
       (demo_config\<lparr>cfg_rtsp_server := Some \<lparr>srv_base_url = None, srv_other_keys = [''host'']\<rparr>\<rparr>)
     = Inr (demo_orchestrator
         (demo_config\<lparr>cfg_rtsp_server := Some \<lparr>srv_base_url = None, srv_other_keys = [''host'']\<rparr>\<rparr>))
   \<and> init_orchestrator demo_init_env 100 demo_config = Inr (demo_orchestrator demo_config)"
  using init_orchestrator_error_iff [of demo_init_env 100 "demo_config\<lparr>cfg_video := None\<rparr>"]
    init_orchestrator_error_iff [of demo_init_env 100 lower_case_log_level]
    init_orchestrator_error_iff [of demo_init_env 100 demo_config]
  by (simp add: init_orchestrator_def setup_logging_def loguru_levels_def demo_init_env_def
      lower_case_log_level_def validate_config_def demo_config_def demo_orchestrator_def
      get_video_def get_video_sources_def get_rtsp_server_def get_or_def str_int_def
      str_nat.simps digit_char_def)

lemma three_video_publishers:
  assumes "fs vpath = Video props"
  shows "\<exists>orc'. add_publishers fs
           (map (\<lambda>i. Inr (video_args base pc vpath vloop vfps i)) [1..3]) orc = (None, orc')
         \<and> config orc' = config orc
         \<and> map stream_name (publishers orc') = map stream_name (publishers orc) @ [''stream1'', ''stream2'', ''stream3'']
         \<and> map rtsp_url (publishers orc') = map rtsp_url (publishers orc) @ [base @ ''/stream1'', base @ ''/stream2'', base @ ''/stream3'']
         \<and> length (publishers orc') = length (publishers orc) + 3"
proof -
  have u: "[1..(3::int)] = [1, 2, 3]" by (simp add: upto_rec1)
  show ?thesis
    unfolding u using assms
    by (simp add: video_args_def init_publisher_def str_int_digits Let_def)
qed

lemma create_publishers_video_three:
  assumes "cfg_video (config orc) = Some v" and "vid_path v = Some vpath"
    and "cfg_rtsp_server (config orc) = Some srv" and "srv_base_url srv = Some base"
    and "get_or (cfg_load_test (config orc)) lt_concurrent_streams 3 = 3"
    and "fs vpath = Video props"
  shows "\<exists>orc'. create_publishers fs orc = (None, orc')
         \<and> map stream_name (publishers orc') = map stream_name (publishers orc) @ [''stream1'', ''stream2'', ''stream3'']
         \<and> map rtsp_url (publishers orc') = map rtsp_url (publishers orc) @ [base @ ''/stream1'', base @ ''/stream2'', base @ ''/stream3'']
         \<and> length (publishers orc') = length (publishers orc) + 3"
proof -
  obtain orc' where a: "add_publishers fs
           (map (\<lambda>i. Inr (video_args base (cfg_publisher (config orc)) vpath
               (get_or (Some v) vid_loop True)
               (get_or (Some v) vid_fps 30) i)) [1..3]) orc = (None, orc')"
    and n: "map stream_name (publishers orc') = map stream_name (publishers orc) @ [''stream1'', ''stream2'', ''stream3'']"
    and r: "map rtsp_url (publishers orc') = map rtsp_url (publishers orc) @ [base @ ''/stream1'', base @ ''/stream2'', base @ ''/stream3'']"
    and l: "length (publishers orc') = length (publishers orc) + 3"
    using three_video_publishers [of fs vpath props base "cfg_publisher (config orc)"
        "get_or (Some v) vid_loop True"
        "get_or (Some v) vid_fps 30" orc, OF assms(6)] by blast
  have "create_publishers fs orc =
        (None, orc'\<lparr>log := log orc' @ [Log_created_total (length (publishers orc'))]\<rparr>)"
    using assms(1-5) a
    by (simp add: create_publishers_def get_video_def Let_def log_created_total_def)
  then show ?thesis using n r l by simp
qed

text \<open>
  Claim C9. With a video section, a server base URL and \<open>concurrent_streams = 3\<close>,
  and the video file readable, \<open>create_publishers\<close> returns normally and appends exactly
  three publishers, named stream1, stream2, stream3 in this order, with the endpoints
  base/stream1, base/stream2, base/stream3.
\<close>

theorem create_publishers_three_streams:
  assumes "cfg_video (config orc) = Some v" and "vid_path v = Some vpath"
    and "cfg_rtsp_server (config orc) = Some srv" and "srv_base_url srv = Some base"
    and "cfg_load_test (config orc) = Some lt" and "lt_concurrent_streams lt = Some 3"
    and "fs vpath = Video props"
  shows "\<exists>orc'. create_publishers fs orc = (None, orc')
         \<and> map stream_name (publishers orc') = map stream_name (publishers orc) @ [''stream1'', ''stream2'', ''stream3'']
         \<and> map rtsp_url (publishers orc') = map rtsp_url (publishers orc) @ [base @ ''/stream1'', base @ ''/stream2'', base @ ''/stream3'']
         \<and> length (publishers orc') = length (publishers orc) + 3
         \<and> get_stream_urls orc' = get_stream_urls orc @ [base @ ''/stream1'', base @ ''/stream2'', base @ ''/stream3'']"
proof -
  have "get_or (cfg_load_test (config orc)) lt_concurrent_streams 3 = 3"
    using assms(5,6) by (simp add: get_or_def)
  from create_publishers_video_three [where fs = fs and props = props, OF assms(1-4) this assms(7)]
  show ?thesis by (auto simp add: get_stream_urls_def)
qed

theorem create_publishers_three_streams_witness:
  "cfg_video (config (demo_orchestrator demo_config))
     = Some \<lparr>vid_path = Some ''videos/test.mp4'', vid_loop = None, vid_fps = None, vid_other_keys = []\<rparr>
   \<and> cfg_rtsp_server (config (demo_orchestrator demo_config))
     = Some \<lparr>srv_base_url = Some ''rtsp://localhost:8554'', srv_other_keys = []\<rparr>
   \<and> cfg_load_test (config (demo_orchestrator demo_config))
     = Some \<lparr>lt_concurrent_streams = Some 3, lt_report_interval = None, lt_duration = None\<rparr>
   \<and> demo_fs ''videos/test.mp4''
     = Video \<lparr>width = 640, height = 480, native_fps = 30, frames = 300\<rparr>
   \<and> fst (create_publishers demo_fs (demo_orchestrator demo_config)) = None
   \<and> get_stream_urls (snd (create_publishers demo_fs (demo_orchestrator demo_config)))
     = [''rtsp://localhost:8554/stream1'', ''rtsp://localhost:8554/stream2'',
        ''rtsp://localhost:8554/stream3'']"
  using create_publishers_three_streams [of "demo_orchestrator demo_config"
      "\<lparr>vid_path = Some ''videos/test.mp4'', vid_loop = None, vid_fps = None, vid_other_keys = []\<rparr>"
      "''videos/test.mp4''" "\<lparr>srv_base_url = Some ''rtsp://localhost:8554'', srv_other_keys = []\<rparr>"
      "''rtsp://localhost:8554''"
      "\<lparr>lt_concurrent_streams = Some 3, lt_report_interval = None, lt_duration = None\<rparr>"
      demo_fs "\<lparr>width = 640, height = 480, native_fps = 30, frames = 300\<rparr>"]
  by (simp add: demo_orchestrator_def demo_config_def demo_fs_def get_stream_urls_def
      get_or_def get_video_def create_publishers_def upto_rec1 video_args_def
      init_publisher_def str_int_def str_nat.simps digit_char_def log_created_total_def Let_def)


text \<open>
  Claim C10. A configuration has a video section and no load\_test section. Validation
  then compares the default count 1 with the maximum, so it accepts exactly when the
  maximum is at least 1, and construction succeeds exactly when moreover the signal
  handlers are registered and logging is set up; \<open>create_publishers\<close> takes the default
  3 and creates exactly three publishers. With a maximum of 2, construction succeeds
  and three publishers are created, more than the maximum.
\<close>

theorem default_stream_count_mismatch:
  assumes "cfg_video c = Some v" and "vid_path v = Some vpath"
    and "cfg_load_test c = None"
    and "cfg_rtsp_server c = Some srv" and "srv_base_url srv = Some base"
    and "fs vpath = Video props"
  shows "((\<exists>orc. init_orchestrator ienv now c = Inr orc)
            \<longleftrightarrow> signal_error ienv = None \<and> setup_logging ienv c = None
                \<and> 1 \<le> get_or (cfg_limits c) lim_max_streams 50)
         \<and> (validate_config c = Inr () \<longleftrightarrow> 1 \<le> get_or (cfg_limits c) lim_max_streams 50)
         \<and> (\<forall>orc. init_orchestrator ienv now c = Inr orc \<longrightarrow>
               (\<exists>orc'. create_publishers fs orc = (None, orc')
                  \<and> map stream_name (publishers orc') = [''stream1'', ''stream2'', ''stream3'']
                  \<and> length (publishers orc') = 3))
         \<and> (signal_error ienv = None \<and> setup_logging ienv c = None
              \<and> get_or (cfg_limits c) lim_max_streams 50 = 2 \<longrightarrow>
               (\<exists>orc orc'. init_orchestrator ienv now c = Inr orc
                  \<and> create_publishers fs orc = (None, orc')
                  \<and> length (publishers orc') = 3
                  \<and> int (length (publishers orc')) > get_or (cfg_limits c) lim_max_streams 50))"
proof -
  have hv: "get_video c \<noteq> None" using assms(1,2) by (simp add: get_video_def)
  have hs: "get_rtsp_server c \<noteq> None" using assms(4,5) by (simp add: get_rtsp_server_def)
  have d1: "get_or (cfg_load_test c) lt_concurrent_streams 1 = 1"
    and d3: "get_or (cfg_load_test c) lt_concurrent_streams 3 = 3"
    using assms(3) by (simp_all add: get_or_def)
  let ?orc = "\<lparr>config = c, publishers = [], running = False, start_time = 0,
                     clock = now, log = []\<rparr>"
  have v: "validate_config c =
        (if 1 \<le> get_or (cfg_limits c) lim_max_streams 50 then Inr ()
         else Inl (ValueError (''Concurrent streams ('' @ str_int 1
                     @ '') exceeds max limit (''
                     @ str_int (get_or (cfg_limits c) lim_max_streams 50) @ '')'')))"
    using hv hs d1 by (simp add: validate_config_def Let_def)
  have i: "init_orchestrator ienv now c =
        (case signal_error ienv of
           Some e \<Rightarrow> Inl e
         | None \<Rightarrow> (case setup_logging ienv c of
             Some e \<Rightarrow> Inl e
           | None \<Rightarrow>
              (if 1 \<le> get_or (cfg_limits c) lim_max_streams 50 then Inr ?orc
               else Inl (ValueError (''Concurrent streams ('' @ str_int 1
                     @ '') exceeds max limit (''
                     @ str_int (get_or (cfg_limits c) lim_max_streams 50) @ '')'')))))"
    unfolding init_orchestrator_def v by (simp split: option.splits)
  have cr: "\<exists>orc'. create_publishers fs ?orc = (None, orc')
         \<and> map stream_name (publishers orc') = map stream_name (publishers ?orc) @ [''stream1'', ''stream2'', ''stream3'']
         \<and> map rtsp_url (publishers orc') = map rtsp_url (publishers ?orc) @ [base @ ''/stream1'', base @ ''/stream2'', base @ ''/stream3'']
         \<and> length (publishers orc') = length (publishers ?orc) + 3"
    using assms d3 by (intro create_publishers_video_three [where v = v and srv = srv and props = props]) simp_all
  then obtain orc' where c: "create_publishers fs ?orc = (None, orc')"
    and n: "map stream_name (publishers orc') = [''stream1'', ''stream2'', ''stream3'']"
    and l: "length (publishers orc') = 3"
    by auto
  show ?thesis
  proof (intro conjI allI impI)
    show "(\<exists>orc. init_orchestrator ienv now c = Inr orc)
            \<longleftrightarrow> signal_error ienv = None \<and> setup_logging ienv c = None
                \<and> 1 \<le> get_or (cfg_limits c) lim_max_streams 50"
      unfolding i by (simp split: option.splits)
  next
    show "validate_config c = Inr () \<longleftrightarrow> 1 \<le> get_or (cfg_limits c) lim_max_streams 50"
      unfolding v by simp
  next
    fix orc assume "init_orchestrator ienv now c = Inr orc"
    then have "orc = ?orc" unfolding i by (simp split: if_splits option.splits)
    with c n l show "\<exists>orc'. create_publishers fs orc = (None, orc')
                  \<and> map stream_name (publishers orc') = [''stream1'', ''stream2'', ''stream3'']
                  \<and> length (publishers orc') = 3"
      by simp
  next
    assume m: "signal_error ienv = None \<and> setup_logging ienv c = None
              \<and> get_or (cfg_limits c) lim_max_streams 50 = 2"
    then have "init_orchestrator ienv now c = Inr ?orc" unfolding i by simp
    with c l m show "\<exists>orc orc'. init_orchestrator ienv now c = Inr orc
                  \<and> create_publishers fs orc = (None, orc')
                  \<and> length (publishers orc') = 3
                  \<and> int (length (publishers orc')) > get_or (cfg_limits c) lim_max_streams 50"
      by simp
  qed
qed

theorem default_stream_count_mismatch_witness:
  "cfg_video two_stream_limit_no_load_test
     = Some \<lparr>vid_path = Some ''videos/test.mp4'', vid_loop = None, vid_fps = None, vid_other_keys = []\<rparr>
   \<and> cfg_load_test two_stream_limit_no_load_test = None
   \<and> cfg_rtsp_server two_stream_limit_no_load_test
     = Some \<lparr>srv_base_url = Some ''rtsp://localhost:8554'', srv_other_keys = []\<rparr>
   \<and> demo_fs ''videos/test.mp4''
     = Video \<lparr>width = 640, height = 480, native_fps = 30, frames = 300\<rparr>
   \<and> signal_error demo_init_env = None
   \<and> setup_logging demo_init_env two_stream_limit_no_load_test = None
   \<and> get_or (cfg_limits two_stream_limit_no_load_test) lim_max_streams 50 = 2
   \<and> init_orchestrator demo_init_env 100 two_stream_limit_no_load_test
     = Inr (demo_orchestrator two_stream_limit_no_load_test)
   \<and> map stream_name (publishers (snd (create_publishers demo_fs
         (demo_orchestrator two_stream_limit_no_load_test))))
     = [''stream1'', ''stream2'', ''stream3'']"
  using default_stream_count_mismatch [of two_stream_limit_no_load_test
      "\<lparr>vid_path = Some ''videos/test.mp4'', vid_loop = None, vid_fps = None, vid_other_keys = []\<rparr>"
      "''videos/test.mp4''" "\<lparr>srv_base_url = Some ''rtsp://localhost:8554'', srv_other_keys = []\<rparr>"
      "''rtsp://localhost:8554''" demo_fs
      "\<lparr>width = 640, height = 480, native_fps = 30, frames = 300\<rparr>" demo_init_env 100]
  by (simp add: two_stream_limit_no_load_test_def demo_orchestrator_def demo_config_def
      demo_fs_def demo_init_env_def get_or_def init_orchestrator_def setup_logging_def
      loguru_levels_def validate_config_def get_video_def
      get_video_sources_def get_rtsp_server_def create_publishers_def upto_rec1 video_args_def
      init_publisher_def str_int_def str_nat.simps digit_char_def log_created_total_def Let_def)

end
